theory Spec2Isabelle
  imports Complex_Main "HOL-Library.Char_ord" "HOL-Library.List_Lexorder"
begin

section \<open>Market basket analysis backend (backend/main.py)\<close>

text \<open>
  A shallow embedding of the analytics functions of \<^verbatim>\<open>backend/main.py\<close>:
  \<^verbatim>\<open>_to_bool01\<close>, \<^verbatim>\<open>transactional_to_onehot\<close>, \<^verbatim>\<open>detect_and_encode\<close>,
  \<^verbatim>\<open>calculate_optimal_support\<close>, \<^verbatim>\<open>build_cooccurrence\<close>, the sort of
  \<^verbatim>\<open>get_frequent_itemsets\<close> and the analysis part of \<^verbatim>\<open>upload_dataset\<close>.

  Python floats are taken as real numbers. A pandas frame is a list of named columns.
  The functions of pandas and numpy the code calls (\<^verbatim>\<open>groupby\<close>, \<^verbatim>\<open>sum\<close>,
  \<^verbatim>\<open>min\<close>, \<^verbatim>\<open>median\<close>, \<^verbatim>\<open>sort_values\<close>, \<^verbatim>\<open>X.T @ X\<close>,
  \<^verbatim>\<open>fill_diagonal\<close>) are written out as list functions. The two functions of mlxtend
  that do the mining (\<^verbatim>\<open>apriori\<close>, \<^verbatim>\<open>association_rules\<close>) are not part of the
  repository: \<^verbatim>\<open>upload_dataset\<close> takes them as parameters.
\<close>

subsection \<open>Python strings\<close>

text \<open>
  A character is a code point below 256. \<^verbatim>\<open>str.lower\<close> maps the capital letters
  among them, A to Z and U+00C0 to U+00DE without the sign U+00D7, to their small
  letters.
\<close>

definition lower_char :: "char \<Rightarrow> char" where
  "lower_char c =
     (case map_of
        (zip (''ABCDEFGHIJKLMNOPQRSTUVWXYZ'' @
          [CHR 0xC0, CHR 0xC1, CHR 0xC2, CHR 0xC3, CHR 0xC4, CHR 0xC5, CHR 0xC6, CHR 0xC7,
           CHR 0xC8, CHR 0xC9, CHR 0xCA, CHR 0xCB, CHR 0xCC, CHR 0xCD, CHR 0xCE, CHR 0xCF,
           CHR 0xD0, CHR 0xD1, CHR 0xD2, CHR 0xD3, CHR 0xD4, CHR 0xD5, CHR 0xD6, CHR 0xD8,
           CHR 0xD9, CHR 0xDA, CHR 0xDB, CHR 0xDC, CHR 0xDD, CHR 0xDE])
          (''abcdefghijklmnopqrstuvwxyz'' @
          [CHR 0xE0, CHR 0xE1, CHR 0xE2, CHR 0xE3, CHR 0xE4, CHR 0xE5, CHR 0xE6, CHR 0xE7,
           CHR 0xE8, CHR 0xE9, CHR 0xEA, CHR 0xEB, CHR 0xEC, CHR 0xED, CHR 0xEE, CHR 0xEF,
           CHR 0xF0, CHR 0xF1, CHR 0xF2, CHR 0xF3, CHR 0xF4, CHR 0xF5, CHR 0xF6, CHR 0xF8,
           CHR 0xF9, CHR 0xFA, CHR 0xFB, CHR 0xFC, CHR 0xFD, CHR 0xFE])) c of
        Some d \<Rightarrow> d
      | None \<Rightarrow> c)"

definition lower :: "string \<Rightarrow> string" where
  "lower s = map lower_char s"

text \<open>
  \<^verbatim>\<open>str.strip\<close>: the white space is removed at both ends. Below 256 the characters
  Python counts as white space are the blank, U+0009 to U+000D, U+001C to U+001F, the
  next-line character U+0085 and the no-break space U+00A0.
\<close>

definition is_space :: "char \<Rightarrow> bool" where
  "is_space c =
     (c \<in> set [CHR '' '', CHR 0x09, CHR 0x0A, CHR 0x0B, CHR 0x0C, CHR 0x0D,
                CHR 0x1C, CHR 0x1D, CHR 0x1E, CHR 0x1F, CHR 0x85, CHR 0xA0])"

definition strip :: "string \<Rightarrow> string" where
  "strip s = rev (dropWhile is_space (rev (dropWhile is_space s)))"

fun startswith :: "string \<Rightarrow> string \<Rightarrow> bool" where
  "startswith s [] = True"
| "startswith [] (p # ps) = False"
| "startswith (c # cs) (p # ps) = (c = p \<and> startswith cs ps)"

text \<open>\<^verbatim>\<open>sub in s\<close>.\<close>

fun str_in :: "string \<Rightarrow> string \<Rightarrow> bool" where
  "str_in sub [] = (sub = [])"
| "str_in sub (c # cs) = (startswith (c # cs) sub \<or> str_in sub cs)"

text \<open>\<^verbatim>\<open>s.split(sep)\<close> for a separator of one character: never an empty list.\<close>

fun split :: "char \<Rightarrow> string \<Rightarrow> string list" where
  "split sep [] = [[]]"
| "split sep (c # cs) =
     (if c = sep then [] # split sep cs
      else (case split sep cs of
              w # ws \<Rightarrow> (c # w) # ws
            | [] \<Rightarrow> [[c]]))"

subsection \<open>Cells, columns and frames\<close>

text \<open>
  A cell of a frame is missing (\<open>NaN\<close>), a number or a text. A column of dtype
  \<^verbatim>\<open>object\<close> holds any cells; a column of a numeric dtype holds numbers and missing
  values only. A frame is the list of its named columns, all of one length.
\<close>

datatype cell = NaN | Num real | Str string

datatype series = ObjectCol "cell list" | NumericCol "real option list"

type_synonym dataframe = "(string \<times> series) list"

text \<open>The encoded frame: each column has a label and one 0/1 entry per transaction.\<close>

type_synonym onehot = "(cell \<times> int list) list"

text \<open>
  The Python exceptions that reach a handler, each with the text \<^verbatim>\<open>str(e)\<close>
  gives, and the HTTP error a request ends with.
\<close>

datatype error = ValueError string | TypeError string | KeyError string

datatype http_error = HTTPException nat string

fun message :: "error \<Rightarrow> string" where
  "message (ValueError m) = m"
| "message (TypeError m) = m"
| "message (KeyError m) = m"

fun values_of :: "series \<Rightarrow> cell list" where
  "values_of (ObjectCol cs) = cs"
| "values_of (NumericCol vs) = map (\<lambda>v. case v of None \<Rightarrow> NaN | Some x \<Rightarrow> Num x) vs"

definition n_rows :: "dataframe \<Rightarrow> nat" where
  "n_rows df = (case df of [] \<Rightarrow> 0 | (c, s) # rest \<Rightarrow> length (values_of s))"

text \<open>\<^verbatim>\<open>df.empty\<close>: no column or no row.\<close>

definition df_empty :: "dataframe \<Rightarrow> bool" where
  "df_empty df = (df = [] \<or> n_rows df = 0)"

subsection \<open>\<^verbatim>\<open>_to_bool01\<close>\<close>

definition to_bool01 :: "cell \<Rightarrow> int" where
  "to_bool01 x =
     (case x of
        NaN \<Rightarrow> 0
      | Num v \<Rightarrow> (if v \<noteq> 0 then 1 else 0)
      | Str s \<Rightarrow>
          (if lower (strip s) \<in> set [''1'', ''true'', ''yes'', ''y'', ''t'', ''x'']
           then 1 else 0))"

subsection \<open>Sorting cells\<close>

text \<open>
  Numbers are compared by value and texts by code point. Python's \<^verbatim>\<open>sorted\<close> raises
  a \<^verbatim>\<open>TypeError\<close> when it has to compare a text with a cell that is not a text
  (the message is abbreviated here). Where pandas sorts group keys of both kinds it
  puts the numbers first.
\<close>

fun cell_le :: "cell \<Rightarrow> cell \<Rightarrow> bool" where
  "cell_le (Num a) (Num b) = (a \<le> b)"
| "cell_le (Str s) (Str t) = (s \<le> t)"
| "cell_le (Num a) (Str t) = True"
| "cell_le (Str s) (Num b) = False"
| "cell_le x NaN = True"
| "cell_le NaN y = False"

fun insort_by :: "('a \<Rightarrow> 'a \<Rightarrow> bool) \<Rightarrow> 'a \<Rightarrow> 'a list \<Rightarrow> 'a list" where
  "insort_by le x [] = [x]"
| "insort_by le x (y # ys) = (if le x y then x # y # ys else y # insort_by le x ys)"

definition sort_by :: "('a \<Rightarrow> 'a \<Rightarrow> bool) \<Rightarrow> 'a list \<Rightarrow> 'a list" where
  "sort_by le xs = foldr (insort_by le) xs []"

fun is_Str :: "cell \<Rightarrow> bool" where
  "is_Str (Str s) = True"
| "is_Str x = False"

definition py_sorted :: "cell list \<Rightarrow> error + cell list" where
  "py_sorted xs =
     (if (\<exists>x \<in> set xs. is_Str x) \<and> (\<exists>x \<in> set xs. \<not> is_Str x)
      then Inl (TypeError ''< not supported between instances of str and float'')
      else Inr (sort_by cell_le xs))"

subsection \<open>\<^verbatim>\<open>transactional_to_onehot\<close>\<close>

text \<open>
  Modelled from the spec: mlxtend's \<^verbatim>\<open>TransactionEncoder\<close> is not in the repository.
  The vocabulary is the set of the items observed, in sorted order, one column per item;
  the entry of a transaction is 1 when the transaction holds the item.
\<close>

definition TransactionEncoder :: "cell list list \<Rightarrow> error + onehot" where
  "TransactionEncoder transactions =
     (case py_sorted (remdups (concat transactions)) of
        Inl e \<Rightarrow> Inl e
      | Inr columns \<Rightarrow>
          Inr (map (\<lambda>c. (c, map (\<lambda>t. if c \<in> set t then 1 else 0) transactions)) columns))"

definition transactional_to_onehot :: "cell list list \<Rightarrow> error + onehot" where
  "transactional_to_onehot transactions0 =
     (let transactions = filter (\<lambda>t. t \<noteq> []) transactions0
      in if transactions = []
         then Inl (ValueError ''No valid transactions found in the data'')
         else TransactionEncoder transactions)"

subsection \<open>\<^verbatim>\<open>detect_and_encode\<close>\<close>

text \<open>\<^verbatim>\<open>df.loc[:, ~df.columns.str.contains('^Unnamed')]\<close>\<close>

definition drop_unnamed :: "dataframe \<Rightarrow> dataframe" where
  "drop_unnamed df = filter (\<lambda>(c, s). \<not> startswith c ''Unnamed'') df"

text \<open>
  \<^verbatim>\<open>df.groupby(cols[0])[cols[1]].apply(list).tolist()\<close>: one list per distinct key
  of the first column, in the order of the sorted keys; rows with a missing key are left
  out.
\<close>

definition groupby_lists :: "series \<Rightarrow> series \<Rightarrow> cell list list" where
  "groupby_lists s0 s1 =
     (let pairs = zip (values_of s0) (values_of s1);
          keys = sort_by cell_le (remdups (filter (\<lambda>k. k \<noteq> NaN) (map fst pairs)))
      in map (\<lambda>k. map snd (filter (\<lambda>p. fst p = k) pairs)) keys)"

text \<open>
  \<^verbatim>\<open>[item.strip() for item in str(row).split(",") if item.strip()]\<close> on a cell after
  \<^verbatim>\<open>fillna("")\<close>. The text Python prints for a number is the parameter \<open>str_num\<close>.
\<close>

definition py_str :: "(real \<Rightarrow> string) \<Rightarrow> cell \<Rightarrow> string" where
  "py_str str_num x = (case x of NaN \<Rightarrow> [] | Num v \<Rightarrow> str_num v | Str s \<Rightarrow> s)"

definition split_items :: "(real \<Rightarrow> string) \<Rightarrow> cell \<Rightarrow> cell list" where
  "split_items str_num row =
     map Str (filter (\<lambda>item. item \<noteq> []) (map strip (split CHR '','' (py_str str_num row))))"

definition comma_transactions :: "(real \<Rightarrow> string) \<Rightarrow> series \<Rightarrow> cell list list" where
  "comma_transactions str_num s =
     filter (\<lambda>items. items \<noteq> []) (map (split_items str_num) (values_of s))"

text \<open>
  The four cases, in the order of the source. Each of the first three gives \<open>None\<close>
  where the source falls through to the next case.
\<close>

definition case1_id_item :: "dataframe \<Rightarrow> (error + onehot) option" where
  "case1_id_item df =
     (case df of
        [(c0, s0), (c1, s1)] \<Rightarrow>
          (if str_in ''item'' (lower c1) \<or> str_in ''product'' (lower c1)
           then Some (transactional_to_onehot (groupby_lists s0 s1))
           else None)
      | _ \<Rightarrow> None)"

definition case2_single_column :: "(real \<Rightarrow> string) \<Rightarrow> dataframe \<Rightarrow> (error + onehot) option" where
  "case2_single_column str_num df =
     (case df of
        [(c, s)] \<Rightarrow>
          (let transactions = comma_transactions str_num s
           in if transactions = []
              then Some (Inl (ValueError ''No valid transactions found''))
              else Some (transactional_to_onehot transactions))
      | _ \<Rightarrow> None)"

definition case3_items_column :: "(real \<Rightarrow> string) \<Rightarrow> dataframe \<Rightarrow> (error + onehot) option" where
  "case3_items_column str_num df =
     (case filter (\<lambda>(c, s). str_in ''item'' (lower c)) df of
        [] \<Rightarrow> None
      | (c, s) # rest \<Rightarrow>
          (let transactions = comma_transactions str_num s
           in if transactions \<noteq> []
              then Some (transactional_to_onehot transactions)
              else None))"

fun encode_column :: "series \<Rightarrow> int list" where
  "encode_column (ObjectCol cs) = map to_bool01 cs"
| "encode_column (NumericCol vs) =
     map (\<lambda>v. case v of None \<Rightarrow> 0 | Some x \<Rightarrow> (if x > 0 then 1 else 0)) vs"

definition case4_onehot :: "dataframe \<Rightarrow> error + onehot" where
  "case4_onehot df =
     (let encoded = map (\<lambda>(c, s). (Str c, encode_column s)) df
      in if sum_list (map (\<lambda>(c, col). sum_list col) encoded) = 0
         then Inl (ValueError ''No items found in any transaction after encoding'')
         else Inr encoded)"

definition detect_and_encode :: "(real \<Rightarrow> string) \<Rightarrow> dataframe \<Rightarrow> error + onehot" where
  "detect_and_encode str_num df0 =
     (if df_empty df0 then Inl (ValueError ''Empty dataframe provided'')
      else
        (let df = drop_unnamed df0
         in case case1_id_item df of
              Some r \<Rightarrow> r
            | None \<Rightarrow>
                (case case2_single_column str_num df of
                   Some r \<Rightarrow> r
                 | None \<Rightarrow>
                     (case case3_items_column str_num df of
                        Some r \<Rightarrow> r
                      | None \<Rightarrow> case4_onehot df))))"

subsection \<open>\<^verbatim>\<open>calculate_optimal_support\<close>\<close>

text \<open>
  \<^verbatim>\<open>len(df_encoded)\<close> and \<^verbatim>\<open>df_encoded.sum() / n_transactions\<close>. With no row the
  quotient 0/0 is NaN, written \<open>None\<close>; \<^verbatim>\<open>min\<close> and \<^verbatim>\<open>median\<close> of pandas skip
  NaN and give NaN when nothing is left.
\<close>

definition len_encoded :: "onehot \<Rightarrow> nat" where
  "len_encoded df = (case df of [] \<Rightarrow> 0 | (c, col) # rest \<Rightarrow> length col)"

definition item_frequencies :: "onehot \<Rightarrow> real option list" where
  "item_frequencies df =
     map (\<lambda>(c, col). if len_encoded df = 0 then None
                     else Some (real_of_int (sum_list col) / real (len_encoded df))) df"

definition dropna :: "real option list \<Rightarrow> real list" where
  "dropna vs = concat (map (\<lambda>v. case v of None \<Rightarrow> [] | Some x \<Rightarrow> [x]) vs)"

definition series_min :: "real option list \<Rightarrow> real option" where
  "series_min vs = (case dropna vs of [] \<Rightarrow> None | x # xs \<Rightarrow> Some (fold min xs x))"

definition median_sorted :: "real list \<Rightarrow> real" where
  "median_sorted s =
     (let n = length s
      in if odd n then s ! (n div 2) else (s ! (n div 2 - 1) + s ! (n div 2)) / 2)"

definition series_median :: "real option list \<Rightarrow> real option" where
  "series_median vs = (case dropna vs of [] \<Rightarrow> None | x # xs \<Rightarrow> Some (median_sorted (sort (x # xs))))"

text \<open>Python's \<^verbatim>\<open>max(a, b)\<close> gives \<open>b\<close> when \<open>b > a\<close> and \<open>a\<close> otherwise, so also when \<open>b\<close> is NaN.\<close>

definition py_max :: "real \<Rightarrow> real option \<Rightarrow> real" where
  "py_max a b = (case b of None \<Rightarrow> a | Some y \<Rightarrow> if y > a then y else a)"

record suggestions =
  very_low :: real
  low :: real
  conservative :: real
  moderate :: real
  strict :: real

definition calculate_optimal_support :: "onehot \<Rightarrow> suggestions" where
  "calculate_optimal_support df_encoded =
     (let min_freq = series_min (item_frequencies df_encoded);
          median_freq = series_median (item_frequencies df_encoded)
      in \<lparr> very_low = py_max 0.01 (map_option (\<lambda>f. f * 0.5) min_freq),
           low = py_max 0.02 min_freq,
           conservative = py_max 0.05 (map_option (\<lambda>f. f * 0.3) median_freq),
           moderate = py_max 0.1 (map_option (\<lambda>f. f * 0.5) median_freq),
           strict = py_max 0.2 median_freq \<rparr>)"

subsection \<open>\<^verbatim>\<open>build_cooccurrence\<close>\<close>

text \<open>\<^verbatim>\<open>X.T @ X\<close>: the entry (i, j) is the dot product of the columns i and j.\<close>

definition dot :: "int list \<Rightarrow> int list \<Rightarrow> int" where
  "dot xs ys = sum_list (map2 (\<lambda>x y. x * y) xs ys)"

definition matmul_XtX :: "onehot \<Rightarrow> int list list" where
  "matmul_XtX df = map (\<lambda>ci. map (\<lambda>cj. dot (snd ci) (snd cj)) df) df"

definition fill_diagonal :: "int list list \<Rightarrow> int \<Rightarrow> int list list" where
  "fill_diagonal m v = map (\<lambda>(i, row). row[i := v]) (enumerate 0 m)"

text \<open>The result frame: its labels (index and columns alike) and its rows.\<close>

definition build_cooccurrence :: "onehot \<Rightarrow> cell list \<times> int list list" where
  "build_cooccurrence df_encoded = (map fst df_encoded, fill_diagonal (matmul_XtX df_encoded) 0)"

subsection \<open>Frequent itemsets and rules\<close>

text \<open>
  The frame of frequent itemsets has the columns \<^verbatim>\<open>support\<close> and \<^verbatim>\<open>itemsets\<close>;
  a frozenset of labels is written as a list. A rule carries the columns of the rules
  frame the backend reads.
\<close>

type_synonym itemsets = "(real \<times> cell list) list"

record rule =
  antecedents :: "cell list"
  consequents :: "cell list"
  support :: real
  confidence :: real
  lift :: real

record rule_tx = rule +
  supporting_transactions :: "nat list"

type_synonym miner = "onehot \<Rightarrow> real \<Rightarrow> error + itemsets"

type_synonym rule_generator = "itemsets \<Rightarrow> real \<Rightarrow> error + rule list"

fun map_result :: "('a \<Rightarrow> 'e + 'b) \<Rightarrow> 'a list \<Rightarrow> 'e + 'b list" where
  "map_result f [] = Inr []"
| "map_result f (x # xs) =
     (case f x of
        Inl e \<Rightarrow> Inl e
      | Inr y \<Rightarrow> (case map_result f xs of Inl e \<Rightarrow> Inl e | Inr ys \<Rightarrow> Inr (y # ys)))"

subsection \<open>\<^verbatim>\<open>clean_for_json\<close>\<close>

text \<open>\<^verbatim>\<open>sorted(list(x))\<close> on each frozenset.\<close>

definition clean_set :: "cell list \<Rightarrow> error + cell list" where
  "clean_set x = py_sorted (remdups x)"

definition clean_itemsets :: "itemsets \<Rightarrow> error + itemsets" where
  "clean_itemsets fi =
     map_result (\<lambda>(s, x). case clean_set x of Inl e \<Rightarrow> Inl e | Inr l \<Rightarrow> Inr (s, l)) fi"

definition clean_rule :: "rule_tx \<Rightarrow> error + rule_tx" where
  "clean_rule r =
     (case clean_set (antecedents r) of
        Inl e \<Rightarrow> Inl e
      | Inr a \<Rightarrow>
          (case clean_set (consequents r) of
             Inl e \<Rightarrow> Inl e
           | Inr c \<Rightarrow> Inr (r\<lparr>antecedents := a, consequents := c\<rparr>)))"

subsection \<open>\<^verbatim>\<open>upload_dataset\<close>\<close>

record meta =
  file_name :: "string option"
  n_transactions :: nat
  n_items :: nat
  min_support :: real
  min_confidence :: real
  n_frequent_itemsets :: nat
  n_rules :: nat
  support_suggestions :: suggestions

record state =
  df_raw :: dataframe
  df_encoded :: onehot
  frequent_itemsets :: itemsets
  rules :: "rule_tx list"
  cooccurrence :: "cell list \<times> int list list"
  meta :: meta

text \<open>\<^verbatim>\<open>file.filename and "sample_transactions" in file.filename\<close>\<close>

definition is_sample_file :: "string option \<Rightarrow> bool" where
  "is_sample_file filename =
     (case filename of None \<Rightarrow> False | Some f \<Rightarrow> f \<noteq> [] \<and> str_in ''sample_transactions'' f)"

text \<open>
  The handler of the mining block turns every exception into a 400. The
  \<^verbatim>\<open>HTTPException\<close> the block raises itself for an empty result passes through the
  same handler; its text holds the word "sparse", so its detail is always replaced.
\<close>

definition too_sparse :: string where
  "too_sparse =
     ''Dataset is too sparse. Try reducing min_support or check if data is properly formatted.''"

definition mining_error :: "string \<Rightarrow> http_error" where
  "mining_error error_msg =
     HTTPException 400 (if str_in ''sparse'' (lower error_msg) then too_sparse else error_msg)"

definition run_apriori :: "miner \<Rightarrow> onehot \<Rightarrow> real \<Rightarrow> suggestions \<Rightarrow> http_error + real \<times> itemsets" where
  "run_apriori apriori enc ms sugg =
     (case apriori enc ms of
        Inl e \<Rightarrow> Inl (mining_error (message e))
      | Inr fi \<Rightarrow>
          (if fi = [] \<and> ms > very_low sugg
           then (case apriori enc (very_low sugg) of
                   Inl e \<Rightarrow> Inl (mining_error (message e))
                 | Inr fi2 \<Rightarrow>
                     (if fi2 = [] then Inl (HTTPException 400 too_sparse)
                      else Inr (very_low sugg, fi2)))
           else if fi = [] then Inl (HTTPException 400 too_sparse)
           else Inr (ms, fi)))"

text \<open>
  \<^verbatim>\<open>frequent_itemsets.sort_values("support", ascending=False)\<close>, written as an
  insertion sort: rows of equal support keep their order, as they do under numpy's sort
  on a short frame. The properties below rest on the result being sorted, not on the
  order of equal rows; only the example of three rows of equal support shows that order.
\<close>

definition sort_values_support :: "itemsets \<Rightarrow> itemsets" where
  "sort_values_support fi = sort_by (\<lambda>a b. fst a \<ge> fst b) fi"

text \<open>The rules block: an exception of the generator leaves no rules.\<close>

definition run_rules :: "rule_generator \<Rightarrow> itemsets \<Rightarrow> real \<Rightarrow> real \<times> rule list" where
  "run_rules association_rules fi mc =
     (if length fi > 1
      then (case association_rules fi mc of
              Inl e \<Rightarrow> (mc, [])
            | Inr rs \<Rightarrow>
                (if rs = [] \<and> mc > 0.1
                 then (case association_rules fi 0.1 of
                         Inl e \<Rightarrow> (0.1, [])
                       | Inr rs2 \<Rightarrow> (0.1, rs2))
                 else (mc, rs)))
      else (mc, []))"

text \<open>
  \<^verbatim>\<open>df_encoded[all_items].all(axis=1)\<close> and the index under the mask; a label that
  is no column raises a \<^verbatim>\<open>KeyError\<close>.
\<close>

definition with_transactions :: "rule \<Rightarrow> nat list \<Rightarrow> rule_tx" where
  "with_transactions row txs =
     \<lparr> antecedents = antecedents row, consequents = consequents row, support = support row,
       confidence = confidence row, lift = lift row, supporting_transactions = txs \<rparr>"

definition find_supporting_transactions :: "onehot \<Rightarrow> rule \<Rightarrow> error + rule_tx" where
  "find_supporting_transactions enc row =
     (let all_items = remdups (antecedents row @ consequents row)
      in if all_items = [] then Inr (with_transactions row [])
         else if \<exists>l \<in> set all_items. map_of enc l = None
         then Inl (KeyError ''not in index'')
         else Inr (with_transactions row
                (filter (\<lambda>i. list_all (\<lambda>l. the (map_of enc l) ! i \<noteq> 0) all_items)
                   [0..<len_encoded enc])))"

definition processing_error :: "error \<Rightarrow> http_error" where
  "processing_error e = HTTPException 500 (''Error processing file: '' @ message e)"

text \<open>The analysis of an encoded frame: lines 416 to 518 of the source.\<close>

definition analyse ::
  "miner \<Rightarrow> rule_generator \<Rightarrow> string option \<Rightarrow> dataframe \<Rightarrow> onehot \<Rightarrow> real \<Rightarrow> real
     \<Rightarrow> http_error + state" where
  "analyse apriori association_rules filename raw enc min_support0 min_confidence0 =
     (let sugg = calculate_optimal_support enc;
          ms1 = (if is_sample_file filename then min min_support0 0.05 else min_support0)
      in case run_apriori apriori enc ms1 sugg of
           Inl h \<Rightarrow> Inl h
         | Inr (ms2, fi0) \<Rightarrow>
             (let fi = sort_values_support fi0;
                  (mc2, rs0) = run_rules association_rules fi min_confidence0
              in case map_result (find_supporting_transactions enc) rs0 of
                   Inl e \<Rightarrow> Inl (processing_error e)
                 | Inr rs \<Rightarrow>
                     (case clean_itemsets fi of
                        Inl e \<Rightarrow> Inl (processing_error e)
                      | Inr fi_json \<Rightarrow>
                          (case map_result clean_rule rs of
                             Inl e \<Rightarrow> Inl (processing_error e)
                           | Inr rules_json \<Rightarrow>
                               Inr \<lparr> df_raw = raw,
                                     df_encoded = enc,
                                     frequent_itemsets = fi_json,
                                     rules = rules_json,
                                     cooccurrence = build_cooccurrence enc,
                                     meta = \<lparr> file_name = filename,
                                              n_transactions = len_encoded enc,
                                              n_items = length enc,
                                              min_support = ms2,
                                              min_confidence = mc2,
                                              n_frequent_itemsets = length fi,
                                              n_rules = length rs,
                                              support_suggestions = sugg \<rparr> \<rparr>))))"

text \<open>
  The request from the parsed CSV on: the checks of the two thresholds, the check of the
  empty frame, the encoding and the analysis. \<open>str_num\<close> is Python's \<^verbatim>\<open>str\<close> on
  numbers.
\<close>

definition upload_dataset ::
  "(real \<Rightarrow> string) \<Rightarrow> miner \<Rightarrow> rule_generator \<Rightarrow> string option \<Rightarrow> dataframe \<Rightarrow> real \<Rightarrow> real
     \<Rightarrow> http_error + state" where
  "upload_dataset str_num apriori association_rules filename raw min_support0 min_confidence0 =
     (if \<not> (0 < min_support0 \<and> min_support0 \<le> 1)
      then Inl (HTTPException 400 ''min_support must be between 0 and 1'')
      else if \<not> (0 < min_confidence0 \<and> min_confidence0 \<le> 1)
      then Inl (HTTPException 400 ''min_confidence must be between 0 and 1'')
      else if df_empty raw then Inl (HTTPException 400 ''CSV file is empty'')
      else (case detect_and_encode str_num raw of
              Inl e \<Rightarrow> Inl (processing_error e)
            | Inr enc \<Rightarrow>
                analyse apriori association_rules filename raw enc min_support0 min_confidence0))"

subsection \<open>\<^verbatim>\<open>get_frequent_itemsets\<close>\<close>


subsection \<open>The miner and the rule generator of the specification\<close>

text \<open>
  Modelled from the spec: mlxtend's \<^verbatim>\<open>apriori\<close> is not in the repository. This is the
  level-wise algorithm of section 4.2 of the specification on column indices: level 1
  keeps the single items of support at least the threshold; level k joins the pairs of
  frequent (k-1)-itemsets whose union has k items, prunes the candidates with a
  (k-1)-subset that is not frequent, counts the support of the rest over the rows and
  keeps those that reach the threshold; it stops at the first empty level. The result
  lists the levels in order, with the labels of the columns, as
  \<^verbatim>\<open>use_colnames=True\<close> asks. An empty first level gives the empty frame.
\<close>

definition itemset_support :: "onehot \<Rightarrow> nat list \<Rightarrow> real" where
  "itemset_support df c =
     real (length (filter (\<lambda>i. list_all (\<lambda>j. snd (df ! j) ! i \<noteq> 0) c) [0..<len_encoded df]))
       / real (len_encoded df)"

definition level1 :: "onehot \<Rightarrow> real \<Rightarrow> nat list list" where
  "level1 df ms = filter (\<lambda>c. ms \<le> itemset_support df c) (map (\<lambda>j. [j]) [0..<length df])"

definition join :: "nat \<Rightarrow> nat list list \<Rightarrow> nat list list" where
  "join k F =
     remdups (filter (\<lambda>c. length c = k)
       (concat (map (\<lambda>a. map (\<lambda>b. sort (remdups (a @ b))) F) F)))"

definition prune :: "nat list list \<Rightarrow> nat list list \<Rightarrow> nat list list" where
  "prune F C = filter (\<lambda>c. list_all (\<lambda>x. remove1 x c \<in> set F) c) C"

definition next_level :: "onehot \<Rightarrow> real \<Rightarrow> nat \<Rightarrow> nat list list \<Rightarrow> nat list list" where
  "next_level df ms k F = filter (\<lambda>c. ms \<le> itemset_support df c) (prune F (join k F))"

lemma join_props:
  "c \<in> set (join k F) \<Longrightarrow> distinct c \<and> length c = k \<and> set c \<subseteq> \<Union>(set ` set F)"
  by (auto simp: join_def)

lemma next_level_props:
  "c \<in> set (next_level df ms k F) \<Longrightarrow> distinct c \<and> length c = k \<and> set c \<subseteq> \<Union>(set ` set F)"
  using join_props [of c k F] by (simp add: next_level_def prune_def)

lemma next_level_measure:
  assumes "next_level df ms k F \<noteq> []"
  shows "card (\<Union>(set ` set (next_level df ms k F))) - k < Suc (card (\<Union>(set ` set F))) - k"
proof -
  let ?G = "next_level df ms k F"
  obtain c where c: "c \<in> set ?G"
    using assms by (cases ?G) auto
  have p: "distinct c" "length c = k" "set c \<subseteq> \<Union>(set ` set F)"
    using next_level_props [OF c] by auto
  have sub: "\<Union>(set ` set ?G) \<subseteq> \<Union>(set ` set F)"
  proof
    fix x
    assume "x \<in> \<Union>(set ` set ?G)"
    then obtain d where d: "d \<in> set ?G" "x \<in> set d" by auto
    have "set d \<subseteq> \<Union>(set ` set F)"
      using next_level_props [OF d(1)] by simp
    with d(2) show "x \<in> \<Union>(set ` set F)" by (rule subsetD [rotated])
  qed
  have fin: "finite (\<Union>(set ` set F))" by simp
  have "k = card (set c)" using p by (simp add: distinct_card)
  also have "\<dots> \<le> card (\<Union>(set ` set F))" using p fin by (simp add: card_mono)
  finally have k: "k \<le> card (\<Union>(set ` set F))" .
  have "card (\<Union>(set ` set ?G)) \<le> card (\<Union>(set ` set F))"
    using sub fin by (simp add: card_mono)
  with k show ?thesis by arith
qed

function levels :: "onehot \<Rightarrow> real \<Rightarrow> nat \<Rightarrow> nat list list \<Rightarrow> nat list list" where
  "levels df ms k F =
     (let Fk = next_level df ms k F
      in if Fk = [] then [] else Fk @ levels df ms (Suc k) Fk)"
  by pat_completeness auto
termination
proof (relation "measure (\<lambda>(df, ms, k, F). Suc (card (\<Union>(set ` set F))) - k)")
  show "wf (measure (\<lambda>(df, ms, k, F). Suc (card (\<Union>(set ` set F))) - k))"
    by simp
next
  fix df :: onehot and ms :: real and k :: nat and F Fk :: "nat list list"
  assume "Fk = next_level df ms k F" and "Fk \<noteq> []"
  then show "((df, ms, Suc k, Fk), (df, ms, k, F))
               \<in> measure (\<lambda>(df, ms, k, F). Suc (card (\<Union>(set ` set F))) - k)"
    using next_level_measure [of df ms k F] by simp
qed

declare levels.simps [simp del]

text \<open>The frame of the result: one row per itemset found, level by level.\<close>

definition apriori_spec :: miner where
  "apriori_spec df ms =
     (let F1 = level1 df ms;
          found = (if F1 = [] then [] else F1 @ levels df ms 2 F1)
      in Inr (map (\<lambda>c. (itemset_support df c, map (\<lambda>j. fst (df ! j)) c)) found))"

text \<open>
  Modelled from the spec: mlxtend's \<^verbatim>\<open>association_rules\<close> is not in the repository.
  Section 4.3 of the specification: for every frequent itemset of two items or more,
  every non-empty proper subset is an antecedent and the rest of the itemset is the
  consequent; confidence is the support of the itemset over the support of the
  antecedent, lift is confidence over the support of the consequent; the rules of
  confidence at least the threshold are kept. The supports are looked up among the
  frequent itemsets; a subset that is not there is a \<^verbatim>\<open>KeyError\<close>.
\<close>

definition lookup_support :: "itemsets \<Rightarrow> cell list \<Rightarrow> real option" where
  "lookup_support fi x = map_option fst (find (\<lambda>(s, y). set y = set x) fi)"

definition candidate_rule :: "itemsets \<Rightarrow> real \<times> cell list \<Rightarrow> cell list \<Rightarrow> error + rule" where
  "candidate_rule fi itemset a =
     (let c = filter (\<lambda>x. x \<notin> set a) (snd itemset)
      in case lookup_support fi a of
           None \<Rightarrow> Inl (KeyError ''antecedent'')
         | Some sa \<Rightarrow>
             (case lookup_support fi c of
                None \<Rightarrow> Inl (KeyError ''consequent'')
              | Some sc \<Rightarrow>
                  Inr \<lparr> antecedents = a, consequents = c, support = fst itemset,
                        confidence = fst itemset / sa, lift = fst itemset / sa / sc \<rparr>))"

definition candidate_rules :: "itemsets \<Rightarrow> error + rule list" where
  "candidate_rules fi =
     map_result (\<lambda>(itemset, a). candidate_rule fi itemset a)
       (concat (map (\<lambda>itemset.
          map (\<lambda>a. (itemset, a))
            (filter (\<lambda>a. a \<noteq> [] \<and> a \<noteq> snd itemset) (subseqs (snd itemset))))
          (filter (\<lambda>itemset. 2 \<le> length (snd itemset)) fi)))"

definition association_rules_spec :: rule_generator where
  "association_rules_spec fi mc =
     (case candidate_rules fi of
        Inl e \<Rightarrow> Inl e
      | Inr rs \<Rightarrow> Inr (filter (\<lambda>r. mc \<le> confidence r) rs))"

subsection \<open>The detection rules as an ordered list\<close>

text \<open>
  The specification words \<^verbatim>\<open>encode\<close> as a list of detection rules, the first match
  winning, each with a tag. \<open>detect_format\<close> is that reading: the third rule matches as
  soon as a column name holds "item". \<open>detect_format_code\<close> adds what the source asks of
  the third rule: the column must give at least one transaction.
\<close>

datatype format = GroupedIdItem | SingleColumnList | NamedItemColumn | AlreadyEncoded

definition suggests_item :: "string \<Rightarrow> bool" where
  "suggests_item c = (str_in ''item'' (lower c) \<or> str_in ''product'' (lower c))"

definition names_item :: "string \<times> series \<Rightarrow> bool" where
  "names_item col = str_in ''item'' (lower (fst col))"

text \<open>
  Modelled from the spec: what the rules do with the rows. "Grouping rows by the first
  column's value into one transaction per group": the rows are read in order, a row joins
  the group of its key, a key not met before opens a group, a row with no key joins none;
  the groups are handed on in the order of their keys. "Comma-splitting each cell,
  discarding empty items and dropping rows that yield zero items": the text of a cell is
  read character by character, a comma closing the field read so far; the fields are
  trimmed, the empty ones discarded, and a row left with no item gives no transaction.
\<close>

fun add_to_group :: "cell \<Rightarrow> cell \<Rightarrow> (cell \<times> cell list) list \<Rightarrow> (cell \<times> cell list) list" where
  "add_to_group k v [] = [(k, [v])]"
| "add_to_group k v ((k', vs) # gs) =
     (if k = k' then (k', vs @ [v]) # gs else (k', vs) # add_to_group k v gs)"

definition groups_of_rows :: "(cell \<times> cell) list \<Rightarrow> (cell \<times> cell list) list" where
  "groups_of_rows rows =
     foldl (\<lambda>gs (k, v). if k = NaN then gs else add_to_group k v gs) [] rows"

definition grouped_transactions :: "series \<Rightarrow> series \<Rightarrow> cell list list" where
  "grouped_transactions s0 s1 =
     map snd (sort_by (\<lambda>g h. cell_le (fst g) (fst h))
                (groups_of_rows (zip (values_of s0) (values_of s1))))"

fun comma_fields :: "string \<Rightarrow> string \<Rightarrow> string list" where
  "comma_fields field [] = [field]"
| "comma_fields field (c # cs) =
     (if c = CHR '','' then field # comma_fields [] cs else comma_fields (field @ [c]) cs)"

definition comma_items :: "(real \<Rightarrow> string) \<Rightarrow> cell \<Rightarrow> cell list" where
  "comma_items str_num x =
     [Str (strip field). field \<leftarrow> comma_fields [] (py_str str_num x), strip field \<noteq> []]"

definition comma_rows :: "(real \<Rightarrow> string) \<Rightarrow> series \<Rightarrow> cell list list" where
  "comma_rows str_num s =
     [comma_items str_num x. x \<leftarrow> values_of s, comma_items str_num x \<noteq> []]"

definition comma_split_encode :: "(real \<Rightarrow> string) \<Rightarrow> series \<Rightarrow> error + onehot" where
  "comma_split_encode str_num s =
     (let transactions = comma_rows str_num s
      in if transactions = [] then Inl (ValueError ''No valid transactions found'')
         else transactional_to_onehot transactions)"

definition detect_format :: "dataframe \<Rightarrow> format" where
  "detect_format df =
     (if length df = 2 \<and> suggests_item (fst (df ! 1)) then GroupedIdItem
      else if length df = 1 then SingleColumnList
      else if find names_item df \<noteq> None then NamedItemColumn
      else AlreadyEncoded)"

definition encode_as :: "(real \<Rightarrow> string) \<Rightarrow> format \<Rightarrow> dataframe \<Rightarrow> error + onehot" where
  "encode_as str_num fmt df =
     (case fmt of
        GroupedIdItem \<Rightarrow>
          transactional_to_onehot (grouped_transactions (snd (df ! 0)) (snd (df ! 1)))
      | SingleColumnList \<Rightarrow> comma_split_encode str_num (snd (df ! 0))
      | NamedItemColumn \<Rightarrow> comma_split_encode str_num (snd (the (find names_item df)))
      | AlreadyEncoded \<Rightarrow> case4_onehot df)"

definition encode_first_match :: "(real \<Rightarrow> string) \<Rightarrow> dataframe \<Rightarrow> error + onehot" where
  "encode_first_match str_num df0 =
     (if df_empty df0 then Inl (ValueError ''Empty dataframe provided'')
      else encode_as str_num (detect_format (drop_unnamed df0)) (drop_unnamed df0))"

definition detect_format_code :: "(real \<Rightarrow> string) \<Rightarrow> dataframe \<Rightarrow> format" where
  "detect_format_code str_num df =
     (if length df = 2 \<and> suggests_item (fst (df ! 1)) then GroupedIdItem
      else if length df = 1 then SingleColumnList
      else (case find names_item df of
              Some col \<Rightarrow>
                (if comma_rows str_num (snd col) \<noteq> [] then NamedItemColumn
                 else AlreadyEncoded)
            | None \<Rightarrow> AlreadyEncoded))"

definition encode_amended :: "(real \<Rightarrow> string) \<Rightarrow> dataframe \<Rightarrow> error + onehot" where
  "encode_amended str_num df0 =
     (if df_empty df0 then Inl (ValueError ''Empty dataframe provided'')
      else encode_as str_num (detect_format_code str_num (drop_unnamed df0)) (drop_unnamed df0))"

subsection \<open>The median of the specification\<close>

text \<open>
  Modelled from the spec: "derive distribution statistics min, median, max". Among n
  numbers the value of rank k, the ranks counted from 0 in ascending order, is the member
  with at most k members below it and more than k members not above it. The median is
  the mean of the values of the ranks (n - 1) div 2 and n div 2: the middle value when n
  is odd, the mean of the two middle values when n is even.
\<close>

definition has_rank :: "real list \<Rightarrow> nat \<Rightarrow> real \<Rightarrow> bool" where
  "has_rank xs k a =
     (a \<in> set xs \<and> length (filter (\<lambda>x. x < a) xs) \<le> k \<and> k < length (filter (\<lambda>x. x \<le> a) xs))"

definition is_median :: "real list \<Rightarrow> real \<Rightarrow> bool" where
  "is_median xs m =
     (\<exists>a \<in> set xs. \<exists>b \<in> set xs.
        has_rank xs ((length xs - 1) div 2) a \<and> has_rank xs (length xs div 2) b
        \<and> m = (a + b) / 2)"

subsection \<open>What a request returns\<close>

text \<open>The parts of the result of a request the properties below speak about.\<close>

definition itemsets_of :: "http_error + state \<Rightarrow> itemsets option" where
  "itemsets_of r = (case r of Inl h \<Rightarrow> None | Inr st \<Rightarrow> Some (frequent_itemsets st))"

definition thresholds_of :: "http_error + state \<Rightarrow> (real \<times> real) option" where
  "thresholds_of r =
     (case r of Inl h \<Rightarrow> None
      | Inr st \<Rightarrow> Some (min_support (meta st), min_confidence (meta st)))"

definition without_file_name :: "http_error + state \<Rightarrow> http_error + state" where
  "without_file_name r =
     (case r of Inl h \<Rightarrow> Inl h
      | Inr st \<Rightarrow> Inr (st\<lparr>meta := (meta st)\<lparr>file_name := None\<rparr>\<rparr>))"

text \<open>The tables of the examples hold no number that is printed.\<close>

definition no_str :: "real \<Rightarrow> string" where
  "no_str v = []"

section \<open>Properties of the encoder\<close>

subsection \<open>Sorting\<close>

lemma set_insort_by: "set (insort_by le x xs) = insert x (set xs)"
  by (induction xs) auto

lemma set_sort_by: "set (sort_by le xs) = set xs"
  by (induction xs) (simp_all add: sort_by_def set_insort_by)

lemma sorted_insort_by:
  assumes total: "\<And>a b. le a b \<or> le b a" and trans: "\<And>a b c. le a b \<Longrightarrow> le b c \<Longrightarrow> le a c"
  shows "sorted_wrt le xs \<Longrightarrow> sorted_wrt le (insort_by le x xs)"
proof (induction xs)
  case Nil
  then show ?case by simp
next
  case (Cons y ys)
  show ?case
  proof (cases "le x y")
    case True
    then have "\<forall>z \<in> set ys. le x z" using Cons.prems trans by auto
    with True Cons.prems show ?thesis by simp
  next
    case False
    then have "le y x" using total by blast
    with False Cons show ?thesis by (auto simp: set_insort_by)
  qed
qed

lemma sorted_sort_by:
  assumes "\<And>a b. le a b \<or> le b a" and "\<And>a b c. le a b \<Longrightarrow> le b c \<Longrightarrow> le a c"
  shows "sorted_wrt le (sort_by le xs)"
proof (induction xs)
  case Nil
  then show ?case by (simp add: sort_by_def)
next
  case (Cons x xs)
  have "sort_by le (x # xs) = insort_by le x (sort_by le xs)" by (simp add: sort_by_def)
  with Cons show ?case using sorted_insort_by [of le, OF assms] by simp
qed

lemma distinct_insort_by: "distinct (insort_by le x xs) = (x \<notin> set xs \<and> distinct xs)"
  by (induction xs) (auto simp: set_insort_by)

lemma distinct_sort_by: "distinct (sort_by le xs) = distinct xs"
  by (induction xs) (simp_all add: sort_by_def distinct_insort_by set_sort_by [unfolded sort_by_def])

lemma sorted_distinct_unique:
  assumes antisym: "\<And>a b. le a b \<Longrightarrow> le b a \<Longrightarrow> a = b"
  shows "sorted_wrt le xs \<Longrightarrow> sorted_wrt le ys \<Longrightarrow> distinct xs \<Longrightarrow> distinct ys \<Longrightarrow>
         set xs = set ys \<Longrightarrow> xs = ys"
proof (induction xs arbitrary: ys)
  case Nil
  then show ?case by simp
next
  case (Cons x xs)
  from Cons.prems(5) obtain y ys' where ys: "ys = y # ys'" by (cases ys) auto
  have xy: "x = y"
  proof (rule ccontr)
    assume ne: "x \<noteq> y"
    have "x \<in> set ys'" using Cons.prems(5) ne ys by auto
    then have 1: "le y x" using Cons.prems(2) ys by simp
    have "y \<in> set xs" using Cons.prems(5) ne ys by auto
    then have 2: "le x y" using Cons.prems(1) by simp
    from antisym [OF 2 1] ne show False by simp
  qed
  have sets: "set xs = set ys'"
    using Cons.prems(3,4,5) ys xy by auto
  have "xs = ys'"
    using Cons.IH [of ys'] Cons.prems(1,2,3,4) ys sets by simp
  with xy ys show ?case by simp
qed

lemma cell_le_total: "cell_le a b \<or> cell_le b a"
  by (cases a; cases b) auto

lemma cell_le_trans: "cell_le a b \<Longrightarrow> cell_le b c \<Longrightarrow> cell_le a c"
  by (cases a; cases b; cases c) auto

lemma cell_le_antisym: "cell_le a b \<Longrightarrow> cell_le b a \<Longrightarrow> a = b"
  by (cases a; cases b) auto

subsection \<open>Grouping and comma-splitting\<close>

text \<open>
  The grouping and the splitting of the source give the transactions the words of the
  specification describe: \<^verbatim>\<open>groupby\<close> gives the groups of the rows, one per key, and
  the list comprehension over \<^verbatim>\<open>str(row).split(",")\<close> gives the trimmed, non-empty
  fields of each cell.
\<close>

lemma insort_by_map_keys:
  "insort_by (\<lambda>g h. le (fst g) (fst h)) (k, f k) (map (\<lambda>k. (k, f k)) ks) =
     map (\<lambda>k. (k, f k)) (insort_by le k ks)"
  by (induction ks) simp_all

lemma sort_by_map_keys:
  "sort_by (\<lambda>g h. le (fst g) (fst h)) (map (\<lambda>k. (k, f k)) ks) =
     map (\<lambda>k. (k, f k)) (sort_by le ks)"
proof (induction ks)
  case Nil
  then show ?case by (simp add: sort_by_def)
next
  case (Cons k ks)
  have "sort_by (\<lambda>g h. le (fst g) (fst h)) (map (\<lambda>k. (k, f k)) (k # ks)) =
          insort_by (\<lambda>g h. le (fst g) (fst h)) (k, f k)
            (sort_by (\<lambda>g h. le (fst g) (fst h)) (map (\<lambda>k. (k, f k)) ks))"
    by (simp add: sort_by_def)
  also have "\<dots> = map (\<lambda>k. (k, f k)) (insort_by le k (sort_by le ks))"
    unfolding Cons.IH by (rule insort_by_map_keys)
  also have "\<dots> = map (\<lambda>k. (k, f k)) (sort_by le (k # ks))"
    by (simp add: sort_by_def)
  finally show ?case .
qed

lemma add_to_group_map:
  assumes "distinct ks"
  shows "add_to_group k v (map (\<lambda>k'. (k', f k')) ks) =
           (if k \<in> set ks then map (\<lambda>k'. (k', if k' = k then f k' @ [v] else f k')) ks
            else map (\<lambda>k'. (k', f k')) ks @ [(k, [v])])"
  using assms
proof (induction ks)
  case Nil
  then show ?case by simp
next
  case (Cons a ks)
  show ?case
  proof (cases "k = a")
    case True
    then have "k \<notin> set ks" using Cons.prems by simp
    then have "map (\<lambda>k'. (k', if k' = k then f k' @ [v] else f k')) ks = map (\<lambda>k'. (k', f k')) ks"
      by (intro map_cong) auto
    with True show ?thesis by simp
  next
    case False
    with Cons show ?thesis by simp
  qed
qed

lemma groups_of_rows_snoc:
  "groups_of_rows (rows @ [(k, v)]) =
     (if k = NaN then groups_of_rows rows else add_to_group k v (groups_of_rows rows))"
  by (simp add: groups_of_rows_def)

lemma groups_of_rows_keys:
  "\<exists>ks. distinct ks \<and> set ks = {k \<in> fst ` set rows. k \<noteq> NaN}
        \<and> groups_of_rows rows = map (\<lambda>k. (k, map snd (filter (\<lambda>p. fst p = k) rows))) ks"
proof (induction rows rule: rev_induct)
  case Nil
  show ?case by (rule exI [of _ "[]"]) (simp add: groups_of_rows_def)
next
  case (snoc r rows)
  obtain k v where r: "r = (k, v)" by (cases r)
  from snoc obtain ks where d: "distinct ks"
    and s: "set ks = {k \<in> fst ` set rows. k \<noteq> NaN}"
    and g: "groups_of_rows rows = map (\<lambda>k. (k, map snd (filter (\<lambda>p. fst p = k) rows))) ks"
    by blast
  show ?case
  proof (cases "k = NaN")
    case True
    have same: "filter (\<lambda>p. fst p = k') (rows @ [r]) = filter (\<lambda>p. fst p = k') rows"
      if "k' \<in> set ks" for k'
    proof -
      from that s have "k' \<noteq> NaN" by simp
      with True r show ?thesis by simp
    qed
    have eq: "groups_of_rows (rows @ [r]) =
          map (\<lambda>k'. (k', map snd (filter (\<lambda>p. fst p = k') (rows @ [r])))) ks"
      unfolding r groups_of_rows_snoc using True g same by (simp add: r)
    have "set ks = {k \<in> fst ` set (rows @ [r]). k \<noteq> NaN}"
      using s True r by auto
    with d eq show ?thesis by (intro exI [of _ ks]) simp
  next
    case False
    note notnan = False
    show ?thesis
    proof (cases "k \<in> set ks")
      case True
      have "groups_of_rows (rows @ [r]) =
              map (\<lambda>k'. (k', if k' = k then map snd (filter (\<lambda>p. fst p = k') rows) @ [v]
                               else map snd (filter (\<lambda>p. fst p = k') rows))) ks"
        using notnan True by (simp add: r groups_of_rows_snoc g add_to_group_map [OF d])
      also have "\<dots> = map (\<lambda>k'. (k', map snd (filter (\<lambda>p. fst p = k') (rows @ [r])))) ks"
        by (intro map_cong) (auto simp: r)
      finally have eq: "groups_of_rows (rows @ [r]) =
          map (\<lambda>k'. (k', map snd (filter (\<lambda>p. fst p = k') (rows @ [r])))) ks" .
      have "set ks = {k \<in> fst ` set (rows @ [r]). k \<noteq> NaN}"
        using s True r by auto
      with d eq show ?thesis by (intro exI [of _ ks]) simp
    next
      case False
      then have none: "filter (\<lambda>p. fst p = k) rows = []"
        using s notnan by (auto simp: filter_empty_conv)
      have "groups_of_rows (rows @ [r]) =
              map (\<lambda>k'. (k', map snd (filter (\<lambda>p. fst p = k') rows))) ks @ [(k, [v])]"
        using notnan False by (simp add: r groups_of_rows_snoc g add_to_group_map [OF d])
      also have "map (\<lambda>k'. (k', map snd (filter (\<lambda>p. fst p = k') rows))) ks =
                 map (\<lambda>k'. (k', map snd (filter (\<lambda>p. fst p = k') (rows @ [r])))) ks"
        using False by (intro map_cong) (auto simp: r)
      finally have eq: "groups_of_rows (rows @ [r]) =
          map (\<lambda>k'. (k', map snd (filter (\<lambda>p. fst p = k') (rows @ [r])))) (ks @ [k])"
        using none by (simp add: r)
      have d': "distinct (ks @ [k])" using d False by simp
      have "set (ks @ [k]) = {k \<in> fst ` set (rows @ [r]). k \<noteq> NaN}"
        using s notnan r by auto
      with d' eq show ?thesis by (intro exI [of _ "ks @ [k]"]) simp
    qed
  qed
qed

lemma grouped_transactions_groupby:
  "grouped_transactions s0 s1 = groupby_lists s0 s1"
proof -
  define rows where "rows = zip (values_of s0) (values_of s1)"
  obtain ks where d: "distinct ks" and s: "set ks = {k \<in> fst ` set rows. k \<noteq> NaN}"
    and g: "groups_of_rows rows = map (\<lambda>k. (k, map snd (filter (\<lambda>p. fst p = k) rows))) ks"
    using groups_of_rows_keys [of rows] by blast
  have keys: "sort_by cell_le ks = sort_by cell_le (remdups (filter (\<lambda>k. k \<noteq> NaN) (map fst rows)))"
  proof (rule sorted_distinct_unique [of cell_le])
    show "\<And>a b. cell_le a b \<Longrightarrow> cell_le b a \<Longrightarrow> a = b" by (rule cell_le_antisym)
    show "sorted_wrt cell_le (sort_by cell_le ks)"
      by (rule sorted_sort_by) (auto simp: cell_le_total intro: cell_le_trans)
    show "sorted_wrt cell_le (sort_by cell_le (remdups (filter (\<lambda>k. k \<noteq> NaN) (map fst rows))))"
      by (rule sorted_sort_by) (auto simp: cell_le_total intro: cell_le_trans)
    show "distinct (sort_by cell_le ks)" using d by (simp add: distinct_sort_by)
    show "distinct (sort_by cell_le (remdups (filter (\<lambda>k. k \<noteq> NaN) (map fst rows))))"
      by (simp add: distinct_sort_by)
    show "set (sort_by cell_le ks) =
          set (sort_by cell_le (remdups (filter (\<lambda>k. k \<noteq> NaN) (map fst rows))))"
      using s by (auto simp: set_sort_by)
  qed
  have "grouped_transactions s0 s1 =
          map snd (sort_by (\<lambda>g h. cell_le (fst g) (fst h))
            (map (\<lambda>k. (k, map snd (filter (\<lambda>p. fst p = k) rows))) ks))"
    by (simp add: grouped_transactions_def rows_def [symmetric] g)
  also have "\<dots> = map (\<lambda>k. map snd (filter (\<lambda>p. fst p = k) rows)) (sort_by cell_le ks)"
    unfolding sort_by_map_keys [of cell_le "\<lambda>k. map snd (filter (\<lambda>p. fst p = k) rows)" ks]
    by (simp add: comp_def)
  also have "\<dots> = groupby_lists s0 s1"
    by (simp add: groupby_lists_def rows_def [symmetric] Let_def keys)
  finally show ?thesis .
qed

lemma split_not_Nil: "split sep s \<noteq> []"
  by (induction s) (auto split: list.splits)

lemma comma_fields_split:
  "comma_fields field s =
     (field @ hd (split CHR '','' s)) # tl (split CHR '','' s)"
proof (induction s arbitrary: field)
  case Nil
  show ?case by simp
next
  case (Cons c cs)
  obtain w ws where sp: "split CHR '','' cs = w # ws"
    using split_not_Nil [of "CHR '',''" cs] by (cases "split CHR '','' cs") auto
  show ?case
    by (simp add: Cons.IH sp)
qed

lemma comma_fields_Nil: "comma_fields [] s = split CHR '','' s"
  using split_not_Nil [of "CHR '',''" s] by (simp add: comma_fields_split)

lemma concat_map_if:
  "concat (map (\<lambda>x. if P x then [f x] else []) xs) = map f (filter P xs)"
  by (induction xs) auto

lemma comma_items_split: "comma_items str_num x = split_items str_num x"
  by (simp add: comma_items_def split_items_def comma_fields_Nil concat_map_if filter_map comp_def)

lemma comma_rows_transactions: "comma_rows str_num s = comma_transactions str_num s"
  by (simp add: comma_rows_def comma_transactions_def comma_items_split concat_map_if
        filter_map comp_def)

subsection \<open>The order of the detection rules\<close>

lemma find_filter_hd:
  "find P xs = (case filter P xs of [] \<Rightarrow> None | x # rest \<Rightarrow> Some x)"
  by (induction xs) auto

lemma case3_find:
  "case3_items_column str_num df =
     (case find names_item df of
        None \<Rightarrow> None
      | Some col \<Rightarrow>
          (if comma_transactions str_num (snd col) \<noteq> []
           then Some (transactional_to_onehot (comma_transactions str_num (snd col)))
           else None))"
proof -
  have eq: "(\<lambda>(c, s). str_in ''item'' (lower c)) = names_item"
    by (auto simp: names_item_def)
  show ?thesis
    unfolding case3_items_column_def eq find_filter_hd [of names_item df]
    by (simp split: list.splits prod.splits add: Let_def)
qed

lemma encode_rules_two:
  "df = [(c0, s0), (c1, s1)] \<Longrightarrow>
   (case case1_id_item df of Some r \<Rightarrow> r | None \<Rightarrow>
      (case case2_single_column str_num df of Some r \<Rightarrow> r | None \<Rightarrow>
         (case case3_items_column str_num df of Some r \<Rightarrow> r | None \<Rightarrow> case4_onehot df)))
   = encode_as str_num (detect_format_code str_num df) df"
  by (simp add: case1_id_item_def case2_single_column_def case3_find detect_format_code_def
        encode_as_def suggests_item_def comma_split_encode_def grouped_transactions_groupby
        comma_rows_transactions split: option.splits)

lemma encode_rules_one:
  "df = [(c0, s0)] \<Longrightarrow>
   (case case1_id_item df of Some r \<Rightarrow> r | None \<Rightarrow>
      (case case2_single_column str_num df of Some r \<Rightarrow> r | None \<Rightarrow>
         (case case3_items_column str_num df of Some r \<Rightarrow> r | None \<Rightarrow> case4_onehot df)))
   = encode_as str_num (detect_format_code str_num df) df"
  by (simp add: case1_id_item_def case2_single_column_def detect_format_code_def
        encode_as_def comma_split_encode_def comma_rows_transactions Let_def)

lemma encode_rules_other:
  "length df \<noteq> 1 \<Longrightarrow> length df \<noteq> 2 \<Longrightarrow>
   (case case1_id_item df of Some r \<Rightarrow> r | None \<Rightarrow>
      (case case2_single_column str_num df of Some r \<Rightarrow> r | None \<Rightarrow>
         (case case3_items_column str_num df of Some r \<Rightarrow> r | None \<Rightarrow> case4_onehot df)))
   = encode_as str_num (detect_format_code str_num df) df"
proof -
  assume a: "length df \<noteq> 1" "length df \<noteq> 2"
  have c1: "case1_id_item df = None"
    using a by (auto simp: case1_id_item_def split: list.splits)
  have c2: "case2_single_column str_num df = None"
    using a by (auto simp: case2_single_column_def split: list.splits)
  show ?thesis
    using a
    by (simp add: c1 c2 case3_find detect_format_code_def encode_as_def comma_split_encode_def
          comma_rows_transactions split: option.splits)
qed

lemma encode_rules:
   "(case case1_id_item df of Some r \<Rightarrow> r | None \<Rightarrow>
      (case case2_single_column str_num df of Some r \<Rightarrow> r | None \<Rightarrow>
         (case case3_items_column str_num df of Some r \<Rightarrow> r | None \<Rightarrow> case4_onehot df)))
   = encode_as str_num (detect_format_code str_num df) df"
proof (cases df)
  case Nil
  then show ?thesis by (intro encode_rules_other) simp_all
next
  case (Cons a as)
  note outer = Cons
  obtain c0 s0 where a: "a = (c0, s0)" by (cases a)
  show ?thesis
  proof (cases as)
    case Nil
    with outer a show ?thesis by (intro encode_rules_one) simp
  next
    case (Cons b bs)
    note inner = Cons
    obtain c1 s1 where b: "b = (c1, s1)" by (cases b)
    show ?thesis
    proof (cases bs)
      case Nil
      with outer inner a b show ?thesis by (intro encode_rules_two) simp
    next
      case (Cons d ds)
      with outer inner show ?thesis by (intro encode_rules_other) simp_all
    qed
  qed
qed


lemma detect_and_encode_as_format:
  "detect_and_encode str_num df = encode_amended str_num df"
  by (simp add: detect_and_encode_def encode_amended_def encode_rules Let_def)

definition ex_items_blank :: dataframe where
  "ex_items_blank =
     [(''id'', ObjectCol [Str ''1'']), (''items'', ObjectCol [NaN]), (''flag'', ObjectCol [Str ''yes''])]"

lemmas string_defs = lower_def lower_char_def strip_def is_space_def

lemma ex_items_blank_format: "detect_format ex_items_blank = NamedItemColumn"
  by (simp add: detect_format_def ex_items_blank_def names_item_def string_defs)

lemma ex_items_blank_code:
  "detect_and_encode str_num ex_items_blank =
     Inr [(Str ''id'', [1]), (Str ''items'', [0]), (Str ''flag'', [1])]"
  by (simp add: detect_and_encode_as_format encode_amended_def df_empty_def n_rows_def
      ex_items_blank_def drop_unnamed_def detect_format_code_def names_item_def string_defs
      comma_rows_transactions comma_transactions_def split_items_def py_str_def encode_as_def
      case4_onehot_def to_bool01_def)

lemma ex_items_blank_claimed:
  "encode_first_match str_num ex_items_blank = Inl (ValueError ''No valid transactions found'')"
  by (simp add: encode_first_match_def df_empty_def n_rows_def
      ex_items_blank_def drop_unnamed_def detect_format_def names_item_def string_defs
      comma_rows_transactions comma_transactions_def split_items_def py_str_def encode_as_def
      comma_split_encode_def)


text \<open>
  A table of each format: rows to group, the keys out of order; one column of cells to
  split, one of them blank and one missing; a column named "Items" among three; and a
  table whose "items" column holds a no-break space only, which \<^verbatim>\<open>strip\<close> removes.
\<close>

definition ex_grouped :: dataframe where
  "ex_grouped =
     [(''tid'', NumericCol [Some 2, Some 1, Some 2, Some 1]),
      (''Product'', ObjectCol [Str ''milk'', Str ''bread'', Str ''eggs'', Str ''milk''])]"

definition ex_single :: dataframe where
  "ex_single =
     [(''basket'', ObjectCol [Str ''a, b'', Str '' '', Str ''a,,c'', NaN, Str ''b,c''])]"

definition ex_named :: dataframe where
  "ex_named =
     [(''id'', NumericCol [Some 1, Some 2]), (''Items'', ObjectCol [Str ''x,y'', Str '' y '']),
      (''note'', ObjectCol [Str ''yes'', NaN])]"

definition ex_items_nbsp :: dataframe where
  "ex_items_nbsp =
     [(''id'', ObjectCol [Str ''1'']), (''items'', ObjectCol [Str [CHR 0xA0]]),
      (''flag'', ObjectCol [Str ''yes''])]"

lemma ex_grouped_amended:
  "detect_format_code no_str ex_grouped = GroupedIdItem
   \<and> grouped_transactions (snd (ex_grouped ! 0)) (snd (ex_grouped ! 1)) =
       [[Str ''bread'', Str ''milk''], [Str ''milk'', Str ''eggs'']]
   \<and> encode_amended no_str ex_grouped =
       Inr [(Str ''bread'', [1, 0]), (Str ''eggs'', [0, 1]), (Str ''milk'', [1, 1])]"
  by code_simp

lemma ex_single_amended:
  "detect_format_code no_str ex_single = SingleColumnList
   \<and> comma_rows no_str (snd (ex_single ! 0)) =
       [[Str ''a'', Str ''b''], [Str ''a'', Str ''c''], [Str ''b'', Str ''c'']]
   \<and> encode_amended no_str ex_single =
       Inr [(Str ''a'', [1, 1, 0]), (Str ''b'', [1, 0, 1]), (Str ''c'', [0, 1, 1])]"
  by code_simp

lemma ex_named_amended:
  "detect_format_code no_str ex_named = NamedItemColumn
   \<and> encode_amended no_str ex_named = Inr [(Str ''x'', [1, 0]), (Str ''y'', [1, 1])]"
  by code_simp

lemma ex_items_nbsp_amended:
  "detect_format_code no_str ex_items_nbsp = AlreadyEncoded
   \<and> encode_amended no_str ex_items_nbsp =
       Inr [(Str ''id'', [1]), (Str ''items'', [0]), (Str ''flag'', [1])]"
  by code_simp

text \<open>
  Claim C5, as amended. For every table, \<^verbatim>\<open>detect_and_encode\<close> fails on an empty table,
  drops the columns named "Unnamed..." and then applies to the columns left the first
  rule that matches: (1) exactly two columns, the name of the second holding "item" or
  "product" in any case: the rows are grouped by the value of the first column into one
  transaction per group; (2) exactly one column: each cell is split at the commas, the
  empty items are discarded and the rows that give no item are dropped; (3) otherwise
  the first column whose name holds "item" in any case, split as in (2), when this gives
  at least one transaction; (4) otherwise, also when the column of rule 3 gives no
  transaction, the one-hot fallback. The right-hand side is \<open>encode_amended\<close>, which
  picks the rule with \<open>detect_format_code\<close> and groups and splits as the specification
  words it, with \<open>grouped_transactions\<close> and \<open>comma_rows\<close>.
\<close>

theorem detect_and_encode_rule_order:
  "detect_and_encode str_num df = encode_amended str_num df"
  by (rule detect_and_encode_as_format)

theorem detect_and_encode_rule_order_witness:
  "detect_and_encode no_str ex_grouped =
     Inr [(Str ''bread'', [1, 0]), (Str ''eggs'', [0, 1]), (Str ''milk'', [1, 1])]
   \<and> detect_and_encode no_str ex_single =
       Inr [(Str ''a'', [1, 1, 0]), (Str ''b'', [1, 0, 1]), (Str ''c'', [0, 1, 1])]
   \<and> detect_and_encode no_str ex_named = Inr [(Str ''x'', [1, 0]), (Str ''y'', [1, 1])]
   \<and> detect_and_encode no_str ex_items_nbsp =
       Inr [(Str ''id'', [1]), (Str ''items'', [0]), (Str ''flag'', [1])]
   \<and> detect_and_encode no_str ex_items_blank = encode_amended no_str ex_items_blank
   \<and> encode_amended no_str ex_items_blank =
       Inr [(Str ''id'', [1]), (Str ''items'', [0]), (Str ''flag'', [1])]"
  using detect_and_encode_rule_order [of no_str ex_grouped]
    detect_and_encode_rule_order [of no_str ex_single]
    detect_and_encode_rule_order [of no_str ex_named]
    detect_and_encode_rule_order [of no_str ex_items_nbsp]
    detect_and_encode_rule_order [of no_str ex_items_blank]
    ex_grouped_amended ex_single_amended ex_named_amended ex_items_nbsp_amended
    ex_items_blank_code [of no_str]
  by simp

text \<open>
  The claim as it is worded lets the third rule win as soon as a column name holds
  "item". On a table of three columns whose "items" column is blank, the source goes on
  to the one-hot fallback and returns a matrix, where the first match would find no
  transaction.
\<close>

theorem first_match_counterexample:
  "detect_format ex_items_blank = NamedItemColumn
   \<and> encode_first_match no_str ex_items_blank = Inl (ValueError ''No valid transactions found'')
   \<and> detect_and_encode no_str ex_items_blank =
       Inr [(Str ''id'', [1]), (Str ''items'', [0]), (Str ''flag'', [1])]
   \<and> detect_and_encode no_str ex_items_blank \<noteq> encode_first_match no_str ex_items_blank"
  by (simp add: ex_items_blank_format ex_items_blank_code ex_items_blank_claimed)

subsection \<open>Empty tables\<close>

lemma detect_and_encode_no_rows:
  "n_rows df = 0 \<Longrightarrow> detect_and_encode str_num df = Inl (ValueError ''Empty dataframe provided'')"
  by (simp add: detect_and_encode_def df_empty_def)

lemma upload_dataset_no_rows:
  "n_rows df = 0 \<Longrightarrow> \<exists>detail. upload_dataset str_num ap ar filename df ms mc = Inl (HTTPException 400 detail)"
  by (simp add: upload_dataset_def df_empty_def)

definition ex_no_rows :: dataframe where
  "ex_no_rows = [(''items'', ObjectCol [])]"

text \<open>
  Claim C9. On a table with no row, \<^verbatim>\<open>detect_and_encode\<close> raises the
  \<^verbatim>\<open>ValueError\<close> "Empty dataframe provided", and \<^verbatim>\<open>upload_dataset\<close> ends with a
  400: neither returns a matrix or an analysis.
\<close>

theorem empty_table_fails:
  assumes "n_rows df = 0"
  shows "detect_and_encode str_num df = Inl (ValueError ''Empty dataframe provided'')
         \<and> (\<exists>detail. upload_dataset str_num ap ar filename df ms mc = Inl (HTTPException 400 detail))"
  using assms detect_and_encode_no_rows upload_dataset_no_rows by blast

theorem empty_table_fails_witness:
  "n_rows ex_no_rows = 0
   \<and> detect_and_encode no_str ex_no_rows = Inl (ValueError ''Empty dataframe provided'')
   \<and> upload_dataset no_str apriori_spec association_rules_spec (Some ''baskets.csv'') ex_no_rows (1/2) (1/2)
       = Inl (HTTPException 400 ''CSV file is empty'')"
proof -
  have h: "n_rows ex_no_rows = 0" by (simp add: n_rows_def ex_no_rows_def)
  have u: "upload_dataset no_str apriori_spec association_rules_spec (Some ''baskets.csv'') ex_no_rows (1/2) (1/2)
       = Inl (HTTPException 400 ''CSV file is empty'')"
    using h by (simp add: upload_dataset_def df_empty_def)
  show ?thesis
    using h u empty_table_fails [OF h, of no_str apriori_spec association_rules_spec "Some ''baskets.csv''" "1/2" "1/2"]
    by simp
qed

subsection \<open>Columns named "Unnamed"\<close>


lemma detect_and_encode_grouped:
  "\<not> df_empty df \<Longrightarrow> drop_unnamed df = [(c0, s0), (c1, s1)] \<Longrightarrow>
   str_in ''item'' (lower c1) \<or> str_in ''product'' (lower c1) \<Longrightarrow>
   detect_and_encode str_num df = transactional_to_onehot (groupby_lists s0 s1)"
  by (simp add: detect_and_encode_def case1_id_item_def)






subsection \<open>Numbers in the one-hot fallback\<close>

definition ex_negative :: dataframe where
  "ex_negative = [(''a'', NumericCol [Some (-1)]), (''b'', NumericCol [Some 1])]"

definition ex_negative_object :: dataframe where
  "ex_negative_object = [(''a'', ObjectCol [Num (-1)]), (''b'', ObjectCol [Str ''yes''])]"

text \<open>
  Claim C6 asks that every numeric cell be encoded as 1 exactly when it is not zero.
  \<^verbatim>\<open>_to_bool01\<close> does so for a number in a column of dtype object, but a column of a
  numeric dtype is encoded with \<^verbatim>\<open>> 0\<close>: the cell -1 becomes 0 there and 1 in an
  object column.
\<close>

theorem negative_number_encoded_zero:
  "detect_and_encode no_str ex_negative = Inr [(Str ''a'', [0]), (Str ''b'', [1])]
   \<and> to_bool01 (Num (-1)) = 1
   \<and> detect_and_encode no_str ex_negative_object = Inr [(Str ''a'', [1]), (Str ''b'', [1])]"
  by (simp add: detect_and_encode_def df_empty_def n_rows_def ex_negative_def ex_negative_object_def
      drop_unnamed_def case1_id_item_def case2_single_column_def case3_items_column_def
      case4_onehot_def to_bool01_def string_defs)

section \<open>Properties of the co-occurrence matrix and of the thresholds\<close>

text \<open>A table of three baskets over the items x and y, already one-hot encoded.\<close>

definition baskets :: dataframe where
  "baskets =
     [(''x'', NumericCol [Some 1, Some 1, Some 0]), (''y'', NumericCol [Some 1, Some 0, Some 1])]"

definition baskets_encoded :: onehot where
  "baskets_encoded = [(Str ''x'', [1, 1, 0]), (Str ''y'', [1, 0, 1])]"

subsection \<open>The co-occurrence matrix\<close>

lemma dot_commute: "dot xs ys = dot ys xs"
proof (induction xs arbitrary: ys)
  case Nil
  then show ?case by (simp add: dot_def)
next
  case (Cons x xs)
  then show ?case by (cases ys) (simp_all add: dot_def mult.commute)
qed

lemma dot_counts:
  "set xs \<subseteq> {0, 1} \<Longrightarrow> set ys \<subseteq> {0, 1} \<Longrightarrow>
   dot xs ys = int (length (filter (\<lambda>(a, b). a = 1 \<and> b = 1) (zip xs ys)))"
proof (induction xs arbitrary: ys)
  case Nil
  then show ?case by (simp add: dot_def)
next
  case (Cons x xs)
  show ?case
  proof (cases ys)
    case Nil
    then show ?thesis by (simp add: dot_def)
  next
    case (Cons y ys')
    have "dot xs ys' = int (length (filter (\<lambda>(a, b). a = 1 \<and> b = 1) (zip xs ys')))"
      using Cons.IH [of ys'] Cons.prems Cons by simp
    moreover have "x = 0 \<or> x = 1" "y = 0 \<or> y = 1"
      using Cons.prems Cons by auto
    ultimately show ?thesis
      using Cons by (auto simp: dot_def)
  qed
qed

lemma matmul_nth:
  "i < length df \<Longrightarrow> j < length df \<Longrightarrow> matmul_XtX df ! i ! j = dot (snd (df ! i)) (snd (df ! j))"
  by (simp add: matmul_XtX_def)

lemma matmul_row_length:
  "i < length df \<Longrightarrow> length (matmul_XtX df ! i) = length df"
  by (simp add: matmul_XtX_def)

lemma fill_diagonal_nth:
  "i < length m \<Longrightarrow> fill_diagonal m v ! i = (m ! i)[i := v]"
  by (simp add: fill_diagonal_def nth_enumerate_eq)

lemma cooccurrence_nth:
  assumes "i < length df" and "j < length df"
  shows "snd (build_cooccurrence df) ! i ! j = (if i = j then 0 else dot (snd (df ! i)) (snd (df ! j)))"
proof -
  have len: "length (matmul_XtX df) = length df" by (simp add: matmul_XtX_def)
  have "snd (build_cooccurrence df) ! i = (matmul_XtX df ! i)[i := 0]"
    using assms len by (simp add: build_cooccurrence_def fill_diagonal_nth)
  then show ?thesis
    using assms by (simp add: matmul_row_length matmul_nth nth_list_update)
qed

text \<open>
  Claim C7. For every binary encoded frame, \<^verbatim>\<open>build_cooccurrence\<close> returns the product
  of the transposed matrix with the matrix, the diagonal set to zero: for two items i and
  j that differ, the cell (i, j) is the number of transactions that hold both; the cell
  (i, j) equals the cell (j, i); every cell of the diagonal is zero; the labels are those
  of the frame.
\<close>

theorem cooccurrence_counts_symmetric:
  assumes "\<forall>col \<in> set df. set (snd col) \<subseteq> {0, 1}" and "i < length df" and "j < length df"
  shows "snd (build_cooccurrence df) ! i ! j =
           (if i = j then 0
            else int (length (filter (\<lambda>(a, b). a = 1 \<and> b = 1) (zip (snd (df ! i)) (snd (df ! j))))))
         \<and> snd (build_cooccurrence df) ! i ! j = snd (build_cooccurrence df) ! j ! i
         \<and> snd (build_cooccurrence df) ! i ! i = 0
         \<and> fst (build_cooccurrence df) = map fst df"
proof -
  have bi: "set (snd (df ! i)) \<subseteq> {0, 1}" and bj: "set (snd (df ! j)) \<subseteq> {0, 1}"
    using assms by (simp_all add: nth_mem)
  have count: "snd (build_cooccurrence df) ! i ! j =
           (if i = j then 0
            else int (length (filter (\<lambda>(a, b). a = 1 \<and> b = 1) (zip (snd (df ! i)) (snd (df ! j))))))"
    using assms(2,3) dot_counts [OF bi bj] by (simp add: cooccurrence_nth)
  have sym: "snd (build_cooccurrence df) ! i ! j = snd (build_cooccurrence df) ! j ! i"
    using assms(2,3) by (simp add: cooccurrence_nth dot_commute [of "snd (df ! i)"])
  have diag: "snd (build_cooccurrence df) ! i ! i = 0"
    using assms(2) by (simp add: cooccurrence_nth)
  have labels: "fst (build_cooccurrence df) = map fst df"
    by (simp add: build_cooccurrence_def)
  from count sym diag labels show ?thesis by (intro conjI)
qed

lemma baskets_cooccurrence:
  "build_cooccurrence baskets_encoded = ([Str ''x'', Str ''y''], [[0, 1], [1, 0]])"
  by (simp add: build_cooccurrence_def baskets_encoded_def matmul_XtX_def dot_def
      fill_diagonal_def enumerate_eq_zip upt_rec)

theorem cooccurrence_counts_symmetric_witness:
  "set (snd (baskets_encoded ! 0)) \<subseteq> {0, 1} \<and> set (snd (baskets_encoded ! 1)) \<subseteq> {0, 1}
   \<and> length baskets_encoded = 2
   \<and> snd (build_cooccurrence baskets_encoded) ! 0 ! 1 = 1
   \<and> snd (build_cooccurrence baskets_encoded) ! 1 ! 0 = 1
   \<and> snd (build_cooccurrence baskets_encoded) ! 0 ! 0 = 0"
proof -
  have b: "\<forall>col \<in> set baskets_encoded. set (snd col) \<subseteq> {0, 1}"
    by (simp add: baskets_encoded_def)
  have l0: "(0::nat) < length baskets_encoded" and l1: "(1::nat) < length baskets_encoded"
    by (simp_all add: baskets_encoded_def)
  have c: "set (snd (baskets_encoded ! 0)) \<subseteq> {0, 1} \<and> set (snd (baskets_encoded ! 1)) \<subseteq> {0, 1}
           \<and> length baskets_encoded = 2"
    by (simp add: baskets_encoded_def)
  show ?thesis
    using c cooccurrence_counts_symmetric [OF b l0 l1] baskets_cooccurrence
    by simp
qed

subsection \<open>The suggested thresholds\<close>

lemma dropna_Some: "dropna (map Some xs) = xs"
  by (induction xs) (simp_all add: dropna_def)

lemma item_frequencies_Some:
  "0 < len_encoded df \<Longrightarrow>
   item_frequencies df =
     map Some (map (\<lambda>col. real_of_int (sum_list (snd col)) / real (len_encoded df)) df)"
  by (simp add: item_frequencies_def split_beta)

lemma series_min_Some:
  assumes "xs \<noteq> []"
  shows "series_min (map Some xs) = Some (Min (set xs))"
proof -
  have "series_min (map Some xs) = (case xs of [] \<Rightarrow> None | x # r \<Rightarrow> Some (fold min r x))"
    unfolding series_min_def dropna_Some by (rule refl)
  with assms show ?thesis
    by (cases xs) (simp_all add: Min.set_eq_fold del: set_simps)
qed

lemma series_median_Some:
  assumes "xs \<noteq> []"
  shows "series_median (map Some xs) = Some (median_sorted (sort xs))"
proof -
  have "series_median (map Some xs) =
          (case xs of [] \<Rightarrow> None | x # r \<Rightarrow> Some (median_sorted (sort (x # r))))"
    unfolding series_median_def dropna_Some by (rule refl)
  with assms show ?thesis
    by (cases xs) (simp_all del: sort_key_simps)
qed

lemma py_max_Some: "py_max a (Some y) = max a y"
  by (simp add: py_max_def max_def)

lemma suggestions_formulas:
  assumes "df \<noteq> []" and "0 < len_encoded df"
    and "freqs = map (\<lambda>col. real_of_int (sum_list (snd col)) / real (len_encoded df)) df"
    and "min_freq = Min (set freqs)" and "median_freq = median_sorted (sort freqs)"
  shows "calculate_optimal_support df =
           \<lparr> very_low = max 0.01 (min_freq * 0.5),
             low = max 0.02 min_freq,
             conservative = max 0.05 (median_freq * 0.3),
             moderate = max 0.1 (median_freq * 0.5),
             strict = max 0.2 median_freq \<rparr>"
proof -
  have ne: "freqs \<noteq> []" using assms(1,3) by simp
  have f: "item_frequencies df = map Some freqs"
    using assms(2,3) by (simp add: item_frequencies_Some)
  show ?thesis
    unfolding calculate_optimal_support_def f series_min_Some [OF ne] series_median_Some [OF ne]
    by (simp add: py_max_Some assms(4,5))
qed

lemma length_filter_insort:
  "length (filter P (insort x xs)) = length (filter P (x # xs))"
  by (induction xs) auto

lemma length_filter_sort: "length (filter P (sort xs)) = length (filter P xs)"
  by (induction xs) (simp_all add: length_filter_insort)

lemma sorted_nth_le_rank:
  "sorted s \<Longrightarrow> i < length (filter (\<lambda>x. x \<le> a) s) \<Longrightarrow> s ! i \<le> (a::real)"
proof (induction s arbitrary: i)
  case Nil
  then show ?case by simp
next
  case (Cons x s)
  show ?case
  proof (cases "x \<le> a")
    case True
    with Cons show ?thesis by (cases i) auto
  next
    case False
    then have "filter (\<lambda>x. x \<le> a) (x # s) = []"
      using Cons.prems(1) by (auto simp: filter_empty_conv)
    with Cons.prems(2) show ?thesis by simp
  qed
qed

lemma sorted_nth_ge_rank:
  "sorted s \<Longrightarrow> length (filter (\<lambda>x. x < a) s) \<le> i \<Longrightarrow> i < length s \<Longrightarrow> (a::real) \<le> s ! i"
proof (induction s arbitrary: i)
  case Nil
  then show ?case by simp
next
  case (Cons x s)
  show ?case
  proof (cases "x < a")
    case True
    with Cons.prems obtain j where i: "i = Suc j" by (cases i) auto
    with True Cons show ?thesis by auto
  next
    case False
    show ?thesis
    proof (cases i)
      case 0
      with False show ?thesis by simp
    next
      case (Suc j)
      then have "s ! j \<in> set s" using Cons.prems(3) by simp
      then have "x \<le> s ! j" using Cons.prems(1) by auto
      with False Suc show ?thesis by simp
    qed
  qed
qed

lemma has_rank_sort:
  assumes "has_rank xs k a"
  shows "sort xs ! k = a"
proof -
  have lo: "length (filter (\<lambda>x. x < a) (sort xs)) \<le> k"
    and hi: "k < length (filter (\<lambda>x. x \<le> a) (sort xs))"
    using assms by (simp_all add: has_rank_def length_filter_sort)
  have "length (filter (\<lambda>x. x \<le> a) (sort xs)) \<le> length (sort xs)" by (rule length_filter_le)
  with hi have k: "k < length (sort xs)" by simp
  have "sort xs ! k \<le> a" using sorted_nth_le_rank [OF _ hi] by simp
  moreover have "a \<le> sort xs ! k" using sorted_nth_ge_rank [OF _ lo k] by simp
  ultimately show ?thesis by simp
qed

lemma is_median_sorted:
  assumes "is_median xs m" and "xs \<noteq> []"
  shows "median_sorted (sort xs) = m"
proof -
  from assms(1) obtain a b where a: "has_rank xs ((length xs - 1) div 2) a"
    and b: "has_rank xs (length xs div 2) b" and m: "m = (a + b) / 2"
    by (auto simp: is_median_def)
  have sa: "sort xs ! ((length xs - 1) div 2) = a" by (rule has_rank_sort [OF a])
  have sb: "sort xs ! (length xs div 2) = b" by (rule has_rank_sort [OF b])
  have pos: "0 < length xs" using assms(2) by simp
  show ?thesis
  proof (cases "odd (length xs)")
    case True
    then have "(length xs - 1) div 2 = length xs div 2" by (auto elim!: oddE)
    with sa sb have "a = b" by simp
    with True sb m show ?thesis by (simp add: median_sorted_def)
  next
    case False
    then have "(length xs - 1) div 2 = length xs div 2 - 1"
      using pos by (auto elim!: evenE)
    with sa sb False m show ?thesis by (simp add: median_sorted_def)
  qed
qed


lemma suggestions_median:
  assumes "df \<noteq> []" and "0 < len_encoded df"
    and "freqs = map (\<lambda>col. real_of_int (sum_list (snd col)) / real (len_encoded df)) df"
    and "min_freq = Min (set freqs)" and "is_median freqs median_freq"
  shows "calculate_optimal_support df =
           \<lparr> very_low = max 0.01 (min_freq * 0.5),
             low = max 0.02 min_freq,
             conservative = max 0.05 (median_freq * 0.3),
             moderate = max 0.1 (median_freq * 0.5),
             strict = max 0.2 median_freq \<rparr>"
proof -
  have ne: "freqs \<noteq> []" using assms(1,3) by simp
  have "median_freq = median_sorted (sort freqs)"
    using is_median_sorted [OF assms(5) ne] by simp
  with assms(1-4) show ?thesis by (rule suggestions_formulas)
qed

text \<open>A table of four baskets over four items, of the frequencies 1/4, 3/4, 1/2 and 1.\<close>

definition shelf_encoded :: onehot where
  "shelf_encoded =
     [(Str ''p'', [1, 0, 0, 0]), (Str ''q'', [1, 1, 1, 0]), (Str ''r'', [1, 1, 0, 0]),
      (Str ''s'', [1, 1, 1, 1])]"

text \<open>
  Claim C8. For every encoded frame with at least one column and one row,
  \<^verbatim>\<open>calculate_optimal_support\<close> returns the five values
  very_low = max(0.01, min_freq * 0.5), low = max(0.02, min_freq),
  conservative = max(0.05, median_freq * 0.3), moderate = max(0.10, median_freq * 0.5)
  and strict = max(0.20, median_freq), where the frequency of an item is the sum of its
  column over the number of transactions, min_freq is the least of the frequencies and
  median_freq is their median: the middle one in ascending order, or the mean of the two
  middle ones when their number is even.
\<close>

theorem calculate_optimal_support_formulas:
  assumes "df \<noteq> []" and "0 < len_encoded df"
    and "freqs = map (\<lambda>col. real_of_int (sum_list (snd col)) / real (len_encoded df)) df"
    and "min_freq = Min (set freqs)" and "is_median freqs median_freq"
  shows "calculate_optimal_support df =
           \<lparr> very_low = max 0.01 (min_freq * 0.5),
             low = max 0.02 min_freq,
             conservative = max 0.05 (median_freq * 0.3),
             moderate = max 0.1 (median_freq * 0.5),
             strict = max 0.2 median_freq \<rparr>"
  using assms by (rule suggestions_median)

theorem calculate_optimal_support_formulas_witness:
  "shelf_encoded \<noteq> [] \<and> 0 < len_encoded shelf_encoded
   \<and> map (\<lambda>col. real_of_int (sum_list (snd col)) / real (len_encoded shelf_encoded)) shelf_encoded
       = [1/4, 3/4, 1/2, 1]
   \<and> Min (set [1/4, 3/4, 1/2, 1 :: real]) = 1/4 \<and> is_median [1/4, 3/4, 1/2, 1] (5/8)
   \<and> calculate_optimal_support shelf_encoded =
       \<lparr> very_low = 1/8, low = 1/4, conservative = 3/16, moderate = 5/16, strict = 5/8 \<rparr>"
proof -
  have a: "shelf_encoded \<noteq> []" by (simp add: shelf_encoded_def)
  have b: "0 < len_encoded shelf_encoded" by (simp add: shelf_encoded_def len_encoded_def)
  have c: "[1/4, 3/4, 1/2, 1 :: real] =
       map (\<lambda>col. real_of_int (sum_list (snd col)) / real (len_encoded shelf_encoded)) shelf_encoded"
    by (simp add: shelf_encoded_def len_encoded_def)
  have d: "(1/4 :: real) = Min (set [1/4, 3/4, 1/2, 1 :: real])" by simp
  have e: "is_median [1/4, 3/4, 1/2, 1] (5/8)" by (simp add: is_median_def has_rank_def)
  show ?thesis
    using a b c [symmetric] d [symmetric] e
      calculate_optimal_support_formulas [OF a b c d e]
    by simp
qed

section \<open>Properties of the analysis\<close>

subsection \<open>The sort and the blocks of the request\<close>



lemma set_sort_values: "set (sort_values_support fi) = set fi"
  by (simp add: sort_values_support_def set_sort_by)

lemma map_result_Inr:
  "map_result f xs = Inr ys \<Longrightarrow> list_all2 (\<lambda>x y. f x = Inr y) xs ys"
  by (induction xs arbitrary: ys) (auto split: sum.splits)

lemma clean_itemsets_supports:
  assumes "clean_itemsets fi = Inr fj"
  shows "map fst fj = map fst fi"
proof -
  have "list_all2 (\<lambda>x y. (case x of (s, x) \<Rightarrow>
           (case clean_set x of Inl e \<Rightarrow> Inl e | Inr l \<Rightarrow> Inr (s, l))) = Inr y) fi fj"
    using assms unfolding clean_itemsets_def by (rule map_result_Inr)
  then show ?thesis
    by (induction rule: list_all2_induct) (auto split: sum.splits)
qed

lemma find_supporting_confidence:
  "find_supporting_transactions enc r = Inr r' \<Longrightarrow> confidence r' = confidence r"
  by (auto simp: find_supporting_transactions_def with_transactions_def Let_def split: if_splits)

lemma clean_rule_confidence:
  "clean_rule r = Inr r' \<Longrightarrow> confidence r' = confidence r"
  by (auto simp: clean_rule_def split: sum.splits)

lemma rules_confidences:
  assumes "map_result (find_supporting_transactions enc) rs0 = Inr rs"
    and "map_result clean_rule rs = Inr rj"
  shows "map confidence rj = map confidence rs0"
proof -
  have "list_all2 (\<lambda>x y. find_supporting_transactions enc x = Inr y) rs0 rs"
    using assms(1) by (rule map_result_Inr)
  then have a: "map confidence rs = map confidence rs0"
    by (induction rule: list_all2_induct) (auto simp: find_supporting_confidence)
  have "list_all2 (\<lambda>x y. clean_rule x = Inr y) rs rj"
    using assms(2) by (rule map_result_Inr)
  then have "map confidence rj = map confidence rs"
    by (induction rule: list_all2_induct) (auto simp: clean_rule_confidence)
  with a show ?thesis by simp
qed

lemma run_apriori_Inr:
  "run_apriori ap enc ms sugg = Inr (ms2, fi) \<Longrightarrow>
   fi \<noteq> [] \<and> ap enc ms2 = Inr fi
   \<and> (ms2 = ms \<or> (ms2 = very_low sugg \<and> very_low sugg < ms \<and> ap enc ms = Inr []))"
  by (auto simp: run_apriori_def split: sum.splits if_splits)

lemma run_rules_threshold:
  "fst (run_rules ar fi mc) = mc
   \<or> (fst (run_rules ar fi mc) = 0.1 \<and> 0.1 < mc \<and> 1 < length fi \<and> ar fi mc = Inr [])"
  by (auto simp: run_rules_def split: sum.splits)

lemma run_rules_rules:
  "snd (run_rules ar fi mc) = []
   \<or> ar fi (fst (run_rules ar fi mc)) = Inr (snd (run_rules ar fi mc))"
  by (auto simp: run_rules_def split: sum.splits)

lemma run_rules_retry:
  "1 < length fi \<Longrightarrow> ar fi mc = Inr [] \<Longrightarrow> 0.1 < mc \<Longrightarrow>
   run_rules ar fi mc = (0.1, case ar fi 0.1 of Inl e \<Rightarrow> [] | Inr rs \<Rightarrow> rs)"
  by (auto simp: run_rules_def split: sum.splits)

lemma analyse_Inr:
  assumes "analyse ap ar filename raw enc ms mc = Inr st"
  shows "\<exists>ms2 fi0.
           run_apriori ap enc (if is_sample_file filename then min ms 0.05 else ms)
             (calculate_optimal_support enc) = Inr (ms2, fi0)
         \<and> min_support (meta st) = ms2
         \<and> min_confidence (meta st) = fst (run_rules ar (sort_values_support fi0) mc)
         \<and> map fst (frequent_itemsets st) = map fst (sort_values_support fi0)
         \<and> map confidence (rules st) = map confidence (snd (run_rules ar (sort_values_support fi0) mc))"
proof -
  let ?ms1 = "if is_sample_file filename then min ms 0.05 else ms"
  let ?sugg = "calculate_optimal_support enc"
  obtain ms2 fi0 where ra: "run_apriori ap enc ?ms1 ?sugg = Inr (ms2, fi0)"
    using assms by (cases "run_apriori ap enc ?ms1 ?sugg") (auto simp: analyse_def Let_def)
  let ?fi = "sort_values_support fi0"
  obtain mc2 rs0 where rr: "run_rules ar ?fi mc = (mc2, rs0)"
    by (cases "run_rules ar ?fi mc") auto
  obtain rs where st1: "map_result (find_supporting_transactions enc) rs0 = Inr rs"
    using assms ra rr
    by (cases "map_result (find_supporting_transactions enc) rs0") (auto simp: analyse_def Let_def)
  obtain fj where st2: "clean_itemsets ?fi = Inr fj"
    using assms ra rr st1 by (cases "clean_itemsets ?fi") (auto simp: analyse_def Let_def)
  obtain rj where st3: "map_result clean_rule rs = Inr rj"
    using assms ra rr st1 st2 by (cases "map_result clean_rule rs") (auto simp: analyse_def Let_def)
  have fields: "frequent_itemsets st = fj" "rules st = rj"
      "min_support (meta st) = ms2" "min_confidence (meta st) = mc2"
    using assms ra rr st1 st2 st3 by (auto simp: analyse_def Let_def)
  have "map fst fj = map fst ?fi" using st2 by (rule clean_itemsets_supports)
  moreover have "map confidence rj = map confidence rs0" using st1 st3 by (rule rules_confidences)
  ultimately show ?thesis using ra rr fields by simp
qed

lemma upload_dataset_Inr:
  assumes "upload_dataset str_num ap ar filename raw ms mc = Inr st"
  shows "0 < ms \<and> ms \<le> 1 \<and> 0 < mc \<and> mc \<le> 1 \<and> \<not> df_empty raw
         \<and> (\<exists>enc. detect_and_encode str_num raw = Inr enc
                   \<and> analyse ap ar filename raw enc ms mc = Inr st)"
  using assms by (auto simp: upload_dataset_def split: if_splits sum.splits)

lemma upload_dataset_valid:
  assumes "0 < ms" "ms \<le> 1" "0 < mc" "mc \<le> 1" "\<not> df_empty raw"
    and "detect_and_encode str_num raw = Inr enc"
  shows "upload_dataset str_num ap ar filename raw ms mc = analyse ap ar filename raw enc ms mc"
  using assms by (simp add: upload_dataset_def)

lemma length_insort_by: "length (insort_by le x xs) = Suc (length xs)"
  by (induction xs) auto

lemma length_sort_by: "length (sort_by le xs) = length xs"
  by (induction xs) (simp_all add: sort_by_def length_insort_by)

lemma run_apriori_empty:
  "ap enc ms = Inr [] \<Longrightarrow> ms \<le> very_low sugg \<or> ap enc (very_low sugg) = Inr [] \<Longrightarrow>
   run_apriori ap enc ms sugg = Inl (HTTPException 400 too_sparse)"
  by (auto simp: run_apriori_def)

lemma run_apriori_retry:
  "ap enc ms = Inr [] \<Longrightarrow> very_low sugg < ms \<Longrightarrow> ap enc (very_low sugg) = Inr fi \<Longrightarrow> fi \<noteq> [] \<Longrightarrow>
   run_apriori ap enc ms sugg = Inr (very_low sugg, fi)"
  by (simp add: run_apriori_def)

lemma analyse_Inl:
  "run_apriori ap enc (if is_sample_file filename then min ms 0.05 else ms)
     (calculate_optimal_support enc) = Inl h \<Longrightarrow>
   analyse ap ar filename raw enc ms mc = Inl h"
  by (simp add: analyse_def Let_def)

lemma analyse_file_name:
  assumes "(if is_sample_file f1 then min ms 0.05 else ms) = (if is_sample_file f2 then min ms' 0.05 else ms')"
  shows "without_file_name (analyse ap ar f1 raw enc ms mc) = without_file_name (analyse ap ar f2 raw enc ms' mc)"
  unfolding analyse_def Let_def assms
  by (simp add: without_file_name_def split: sum.splits prod.splits)

subsection \<open>Miners and rule generators that keep to their threshold\<close>

text \<open>
  What the request needs of the two functions of mlxtend for its thresholds to mean
  anything: the miner returns only itemsets whose support reaches the threshold it is
  given, the rule generator only rules whose confidence reaches its threshold. The
  miner and the rule generator of the specification are of this kind.
\<close>

definition threshold_compliant_miner :: "miner \<Rightarrow> bool" where
  "threshold_compliant_miner ap = (\<forall>enc ms fi. ap enc ms = Inr fi \<longrightarrow> (\<forall>x \<in> set fi. ms \<le> fst x))"

definition threshold_compliant_rules :: "rule_generator \<Rightarrow> bool" where
  "threshold_compliant_rules ar = (\<forall>fi mc rs. ar fi mc = Inr rs \<longrightarrow> (\<forall>r \<in> set rs. mc \<le> confidence r))"

lemma levels_supported:
  "c \<in> set (levels df ms k F) \<Longrightarrow> ms \<le> itemset_support df c"
proof (induction df ms k F rule: levels.induct)
  case (1 df ms k F)
  let ?G = "next_level df ms k F"
  from "1.prems" have "c \<in> set ?G \<or> (?G \<noteq> [] \<and> c \<in> set (levels df ms (Suc k) ?G))"
    by (subst (asm) levels.simps) (auto simp: Let_def split: if_splits)
  then show ?case
  proof
    assume "c \<in> set ?G"
    then show ?thesis by (simp add: next_level_def)
  next
    assume "?G \<noteq> [] \<and> c \<in> set (levels df ms (Suc k) ?G)"
    then show ?thesis using "1.IH" [of ?G] by simp
  qed
qed

lemma apriori_spec_compliant: "threshold_compliant_miner apriori_spec"
  by (auto simp: threshold_compliant_miner_def apriori_spec_def Let_def level1_def levels_supported
      split: if_splits)

lemma association_rules_spec_compliant: "threshold_compliant_rules association_rules_spec"
  by (auto simp: threshold_compliant_rules_def association_rules_spec_def split: sum.splits)

subsection \<open>The thresholds in force\<close>

lemma upload_compliance:
  assumes "threshold_compliant_miner ap" and "threshold_compliant_rules ar"
    and "upload_dataset str_num ap ar filename raw ms mc = Inr st"
  shows "(\<forall>x \<in> set (frequent_itemsets st). min_support (meta st) \<le> fst x)
         \<and> (\<forall>r \<in> set (rules st). min_confidence (meta st) \<le> confidence r)
         \<and> min_support (meta st) \<le> ms \<and> min_confidence (meta st) \<le> mc"
proof -
  obtain enc where an: "analyse ap ar filename raw enc ms mc = Inr st"
    using upload_dataset_Inr [OF assms(3)] by blast
  let ?ms1 = "if is_sample_file filename then min ms 0.05 else ms"
  obtain ms2 fi0 where
    ra: "run_apriori ap enc ?ms1 (calculate_optimal_support enc) = Inr (ms2, fi0)"
    and m1: "min_support (meta st) = ms2"
    and m2: "min_confidence (meta st) = fst (run_rules ar (sort_values_support fi0) mc)"
    and f: "map fst (frequent_itemsets st) = map fst (sort_values_support fi0)"
    and r: "map confidence (rules st) = map confidence (snd (run_rules ar (sort_values_support fi0) mc))"
    using analyse_Inr [OF an] by blast
  let ?fi = "sort_values_support fi0"
  have mined: "ap enc ms2 = Inr fi0" and le1: "ms2 \<le> ?ms1"
    using run_apriori_Inr [OF ra] by auto
  have "\<forall>x \<in> set fi0. ms2 \<le> fst x"
    using assms(1) mined by (auto simp: threshold_compliant_miner_def)
  then have "\<forall>s \<in> set (map fst ?fi). ms2 \<le> s" by (simp add: set_sort_values)
  then have "\<forall>s \<in> set (map fst (frequent_itemsets st)). ms2 \<le> s" by (simp only: f)
  then have a: "\<forall>x \<in> set (frequent_itemsets st). min_support (meta st) \<le> fst x"
    by (simp add: m1)
  have "\<forall>q \<in> set (snd (run_rules ar ?fi mc)). fst (run_rules ar ?fi mc) \<le> confidence q"
    using run_rules_rules [of ar ?fi mc] assms(2) by (auto simp: threshold_compliant_rules_def)
  then have "\<forall>c \<in> set (map confidence (snd (run_rules ar ?fi mc))). fst (run_rules ar ?fi mc) \<le> c"
    by simp
  then have "\<forall>c \<in> set (map confidence (rules st)). min_confidence (meta st) \<le> c"
    by (simp only: r m2)
  then have b: "\<forall>q \<in> set (rules st). min_confidence (meta st) \<le> confidence q" by simp
  have c: "min_support (meta st) \<le> ms" using le1 m1 by (simp split: if_splits)
  have d: "min_confidence (meta st) \<le> mc" using run_rules_threshold [of ar ?fi mc] m2 by auto
  from a b c d show ?thesis by (intro conjI)
qed

lemma upload_retries:
  assumes "0 < ms" "ms \<le> 1" "0 < mc" "mc \<le> 1" "\<not> df_empty raw"
    and enc: "detect_and_encode str_num raw = Inr enc"
    and ms1: "ms1 = (if is_sample_file filename then min ms 0.05 else ms)"
    and vl: "vl = very_low (calculate_optimal_support enc)"
  shows "(ap enc ms1 = Inr [] \<and> (ms1 \<le> vl \<or> ap enc vl = Inr []) \<longrightarrow>
            upload_dataset str_num ap ar filename raw ms mc = Inl (HTTPException 400 too_sparse))
         \<and> (\<forall>fi st. ap enc ms1 = Inr [] \<and> vl < ms1 \<and> ap enc vl = Inr fi \<and> fi \<noteq> []
               \<and> upload_dataset str_num ap ar filename raw ms mc = Inr st \<longrightarrow>
               min_support (meta st) = vl
               \<and> map fst (frequent_itemsets st) = map fst (sort_values_support fi))
         \<and> (\<forall>ms2 fi st. run_apriori ap enc ms1 (calculate_optimal_support enc) = Inr (ms2, fi)
               \<and> 1 < length fi \<and> ar (sort_values_support fi) mc = Inr [] \<and> 0.1 < mc
               \<and> upload_dataset str_num ap ar filename raw ms mc = Inr st \<longrightarrow>
               min_confidence (meta st) = 0.1
               \<and> map confidence (rules st) =
                   (case ar (sort_values_support fi) 0.1 of Inl e \<Rightarrow> [] | Inr rs \<Rightarrow> map confidence rs))"
proof -
  have up: "upload_dataset str_num ap ar filename raw ms mc = analyse ap ar filename raw enc ms mc"
    using assms(1-6) by (rule upload_dataset_valid)
  have A: "ap enc ms1 = Inr [] \<and> (ms1 \<le> vl \<or> ap enc vl = Inr []) \<longrightarrow>
            upload_dataset str_num ap ar filename raw ms mc = Inl (HTTPException 400 too_sparse)"
  proof
    assume h: "ap enc ms1 = Inr [] \<and> (ms1 \<le> vl \<or> ap enc vl = Inr [])"
    then have "run_apriori ap enc ms1 (calculate_optimal_support enc) = Inl (HTTPException 400 too_sparse)"
      unfolding vl by (intro run_apriori_empty) auto
    then show "upload_dataset str_num ap ar filename raw ms mc = Inl (HTTPException 400 too_sparse)"
      unfolding up ms1 by (rule analyse_Inl)
  qed
  have B: "\<forall>fi st. ap enc ms1 = Inr [] \<and> vl < ms1 \<and> ap enc vl = Inr fi \<and> fi \<noteq> []
               \<and> upload_dataset str_num ap ar filename raw ms mc = Inr st \<longrightarrow>
               min_support (meta st) = vl
               \<and> map fst (frequent_itemsets st) = map fst (sort_values_support fi)"
  proof (intro allI impI)
    fix fi st
    assume h: "ap enc ms1 = Inr [] \<and> vl < ms1 \<and> ap enc vl = Inr fi \<and> fi \<noteq> []
               \<and> upload_dataset str_num ap ar filename raw ms mc = Inr st"
    then have ra: "run_apriori ap enc ms1 (calculate_optimal_support enc) = Inr (vl, fi)"
      unfolding vl by (intro run_apriori_retry) auto
    have an: "analyse ap ar filename raw enc ms mc = Inr st" using h up by simp
    show "min_support (meta st) = vl
               \<and> map fst (frequent_itemsets st) = map fst (sort_values_support fi)"
      using analyse_Inr [OF an] ra unfolding ms1 by auto
  qed
  have C: "\<forall>ms2 fi st. run_apriori ap enc ms1 (calculate_optimal_support enc) = Inr (ms2, fi)
               \<and> 1 < length fi \<and> ar (sort_values_support fi) mc = Inr [] \<and> 0.1 < mc
               \<and> upload_dataset str_num ap ar filename raw ms mc = Inr st \<longrightarrow>
               min_confidence (meta st) = 0.1
               \<and> map confidence (rules st) =
                   (case ar (sort_values_support fi) 0.1 of Inl e \<Rightarrow> [] | Inr rs \<Rightarrow> map confidence rs)"
  proof (intro allI impI)
    fix ms2 fi st
    assume h: "run_apriori ap enc ms1 (calculate_optimal_support enc) = Inr (ms2, fi)
               \<and> 1 < length fi \<and> ar (sort_values_support fi) mc = Inr [] \<and> 0.1 < mc
               \<and> upload_dataset str_num ap ar filename raw ms mc = Inr st"
    have an: "analyse ap ar filename raw enc ms mc = Inr st" using h up by simp
    have len: "1 < length (sort_values_support fi)"
      using h by (simp add: sort_values_support_def length_sort_by)
    have rr: "run_rules ar (sort_values_support fi) mc =
                (0.1, case ar (sort_values_support fi) 0.1 of Inl e \<Rightarrow> [] | Inr rs \<Rightarrow> rs)"
      using len h by (intro run_rules_retry) auto
    show "min_confidence (meta st) = 0.1
               \<and> map confidence (rules st) =
                   (case ar (sort_values_support fi) 0.1 of Inl e \<Rightarrow> [] | Inr rs \<Rightarrow> map confidence rs)"
      using analyse_Inr [OF an] h rr unfolding ms1 by (auto split: sum.splits)
  qed
  from A B C show ?thesis by (intro conjI)
qed

lemma very_low_pos: "0 < very_low (calculate_optimal_support enc)"
  by (simp add: calculate_optimal_support_def Let_def py_max_def split: option.splits)

lemma run_apriori_status:
  "run_apriori ap enc ms sugg = Inl h \<Longrightarrow> \<exists>d. h = HTTPException 400 d"
  by (auto simp: run_apriori_def mining_error_def split: sum.splits if_splits)

lemma run_apriori_fails:
  "ap enc ms = Inr [] \<Longrightarrow>
   (\<exists>h. run_apriori ap enc ms sugg = Inl h) =
     (ms \<le> very_low sugg \<or> ap enc (very_low sugg) = Inr [] \<or> (\<exists>e. ap enc (very_low sugg) = Inl e))"
  by (auto simp: run_apriori_def split: sum.splits)

lemma analyse_400:
  "(\<exists>d. analyse ap ar filename raw enc ms mc = Inl (HTTPException 400 d)) =
   (\<exists>h. run_apriori ap enc (if is_sample_file filename then min ms 0.05 else ms)
          (calculate_optimal_support enc) = Inl h)"
proof (cases "run_apriori ap enc (if is_sample_file filename then min ms 0.05 else ms)
          (calculate_optimal_support enc)")
  case (Inl h)
  then obtain d where "h = HTTPException 400 d" using run_apriori_status by blast
  with Inl show ?thesis by (simp add: analyse_Inl)
next
  case (Inr p)
  then show ?thesis
    by (auto simp: analyse_def Let_def processing_error_def split: sum.splits prod.splits)
qed

lemma analyse_mined_cong:
  assumes "run_apriori ap enc (if is_sample_file f1 then min ms 0.05 else ms)
             (calculate_optimal_support enc) =
           run_apriori ap enc (if is_sample_file f2 then min ms' 0.05 else ms')
             (calculate_optimal_support enc)"
  shows "without_file_name (analyse ap ar f1 raw enc ms mc) =
         without_file_name (analyse ap ar f2 raw enc ms' mc)"
  unfolding analyse_def Let_def assms
  by (simp add: without_file_name_def split: sum.splits prod.splits)

lemma run_rules_tenth:
  "1 < length fi \<Longrightarrow> ar fi mc = Inr [] \<Longrightarrow> 0.1 < mc \<Longrightarrow> run_rules ar fi mc = run_rules ar fi 0.1"
  by (simp add: run_rules_def split: sum.splits)

lemma analyse_rules_cong:
  assumes "run_apriori ap enc (if is_sample_file filename then min ms 0.05 else ms)
             (calculate_optimal_support enc) = Inr (ms2, fi)"
    and "run_rules ar (sort_values_support fi) mc = run_rules ar (sort_values_support fi) mc'"
  shows "analyse ap ar filename raw enc ms mc = analyse ap ar filename raw enc ms mc'"
  using assms by (simp add: analyse_def Let_def)

lemma upload_reports_400:
  assumes "0 < ms" "ms \<le> 1" "0 < mc" "mc \<le> 1" "\<not> df_empty raw"
    and enc: "detect_and_encode str_num raw = Inr enc"
    and ms1: "ms1 = (if is_sample_file filename then min ms 0.05 else ms)"
    and vl: "vl = very_low (calculate_optimal_support enc)"
  shows "ap enc ms1 = Inr [] \<longrightarrow>
           (\<exists>d. upload_dataset str_num ap ar filename raw ms mc = Inl (HTTPException 400 d)) =
           (ms1 \<le> vl \<or> ap enc vl = Inr [] \<or> (\<exists>e. ap enc vl = Inl e))"
proof
  assume none: "ap enc ms1 = Inr []"
  have up: "upload_dataset str_num ap ar filename raw ms mc = analyse ap ar filename raw enc ms mc"
    using assms(1-6) by (rule upload_dataset_valid)
  show "(\<exists>d. upload_dataset str_num ap ar filename raw ms mc = Inl (HTTPException 400 d)) =
           (ms1 \<le> vl \<or> ap enc vl = Inr [] \<or> (\<exists>e. ap enc vl = Inl e))"
    unfolding up analyse_400 ms1 [symmetric] vl
    using none by (rule run_apriori_fails)
qed

lemma upload_retry_at_very_low:
  assumes "0 < ms" "ms \<le> 1" "0 < mc" "mc \<le> 1" "\<not> df_empty raw"
    and enc: "detect_and_encode str_num raw = Inr enc"
    and ms1: "ms1 = (if is_sample_file filename then min ms 0.05 else ms)"
    and vl: "vl = very_low (calculate_optimal_support enc)"
  shows "\<forall>fi. ap enc ms1 = Inr [] \<and> vl < ms1 \<and> ap enc vl = Inr fi \<and> fi \<noteq> [] \<longrightarrow>
           without_file_name (upload_dataset str_num ap ar filename raw ms mc) =
           without_file_name (upload_dataset str_num ap ar None raw vl mc)"
proof (intro allI impI)
  fix fi
  assume h: "ap enc ms1 = Inr [] \<and> vl < ms1 \<and> ap enc vl = Inr fi \<and> fi \<noteq> []"
  have up: "upload_dataset str_num ap ar filename raw ms mc = analyse ap ar filename raw enc ms mc"
    using assms(1-6) by (rule upload_dataset_valid)
  have pos: "0 < vl" unfolding vl by (rule very_low_pos)
  have "ms1 \<le> ms" using ms1 by simp
  with h assms(2) have le: "vl \<le> 1" by simp
  have up2: "upload_dataset str_num ap ar None raw vl mc = analyse ap ar None raw enc vl mc"
    using pos le assms(3-6) by (rule upload_dataset_valid)
  have r1: "run_apriori ap enc ms1 (calculate_optimal_support enc) = Inr (vl, fi)"
    unfolding vl using h by (intro run_apriori_retry) (simp_all add: vl)
  have r2: "run_apriori ap enc vl (calculate_optimal_support enc) = Inr (vl, fi)"
    using h by (simp add: run_apriori_def)
  have "run_apriori ap enc (if is_sample_file filename then min ms 0.05 else ms)
             (calculate_optimal_support enc) =
        run_apriori ap enc (if is_sample_file None then min vl 0.05 else vl)
             (calculate_optimal_support enc)"
    using r1 r2 by (simp add: ms1 is_sample_file_def)
  then show "without_file_name (upload_dataset str_num ap ar filename raw ms mc) =
           without_file_name (upload_dataset str_num ap ar None raw vl mc)"
    unfolding up up2 by (rule analyse_mined_cong)
qed

lemma upload_retry_at_tenth:
  assumes "0 < ms" "ms \<le> 1" "0 < mc" "mc \<le> 1" "\<not> df_empty raw"
    and enc: "detect_and_encode str_num raw = Inr enc"
    and ms1: "ms1 = (if is_sample_file filename then min ms 0.05 else ms)"
    and vl: "vl = very_low (calculate_optimal_support enc)"
  shows "\<forall>ms2 fi. run_apriori ap enc ms1 (calculate_optimal_support enc) = Inr (ms2, fi)
           \<and> 1 < length fi \<and> ar (sort_values_support fi) mc = Inr [] \<and> 0.1 < mc \<longrightarrow>
           upload_dataset str_num ap ar filename raw ms mc =
           upload_dataset str_num ap ar filename raw ms 0.1"
proof (intro allI impI)
  fix ms2 fi
  assume h: "run_apriori ap enc ms1 (calculate_optimal_support enc) = Inr (ms2, fi)
           \<and> 1 < length fi \<and> ar (sort_values_support fi) mc = Inr [] \<and> 0.1 < mc"
  have up: "upload_dataset str_num ap ar filename raw ms mc = analyse ap ar filename raw enc ms mc"
    using assms(1-6) by (rule upload_dataset_valid)
  have up2: "upload_dataset str_num ap ar filename raw ms 0.1 = analyse ap ar filename raw enc ms 0.1"
    using assms(1,2,5,6) by (intro upload_dataset_valid) simp_all
  have len: "1 < length (sort_values_support fi)"
    using h by (simp add: sort_values_support_def length_sort_by)
  have rr: "run_rules ar (sort_values_support fi) mc = run_rules ar (sort_values_support fi) 0.1"
    using len h by (intro run_rules_tenth) simp_all
  have ra: "run_apriori ap enc (if is_sample_file filename then min ms 0.05 else ms)
             (calculate_optimal_support enc) = Inr (ms2, fi)"
    using h by (simp add: ms1)
  show "upload_dataset str_num ap ar filename raw ms mc =
           upload_dataset str_num ap ar filename raw ms 0.1"
    unfolding up up2 using ra rr by (rule analyse_rules_cong)
qed

subsection \<open>The name of the file\<close>

lemma upload_file_name:
  "(is_sample_file f1 = is_sample_file f2 \<longrightarrow>
      without_file_name (upload_dataset str_num ap ar f1 raw ms mc)
        = without_file_name (upload_dataset str_num ap ar f2 raw ms mc))
   \<and> (is_sample_file f1 \<and> \<not> is_sample_file f2 \<and> 0 < ms \<and> ms \<le> 1 \<longrightarrow>
      without_file_name (upload_dataset str_num ap ar f1 raw ms mc)
        = without_file_name (upload_dataset str_num ap ar f2 raw (min ms 0.05) mc))"
proof (intro conjI impI)
  assume h: "is_sample_file f1 = is_sample_file f2"
  have "without_file_name (analyse ap ar f1 raw enc ms mc) = without_file_name (analyse ap ar f2 raw enc ms mc)" for enc
    by (rule analyse_file_name) (simp add: h)
  then show "without_file_name (upload_dataset str_num ap ar f1 raw ms mc)
        = without_file_name (upload_dataset str_num ap ar f2 raw ms mc)"
    by (simp add: upload_dataset_def without_file_name_def split: sum.splits)
next
  assume h: "is_sample_file f1 \<and> \<not> is_sample_file f2 \<and> 0 < ms \<and> ms \<le> 1"
  have "without_file_name (analyse ap ar f1 raw enc ms mc)
          = without_file_name (analyse ap ar f2 raw enc (min ms 0.05) mc)" for enc
    by (rule analyse_file_name) (simp add: h)
  moreover have "0 < min ms 0.05 \<and> min ms 0.05 \<le> 1" using h by (simp add: min_def)
  ultimately show "without_file_name (upload_dataset str_num ap ar f1 raw ms mc)
        = without_file_name (upload_dataset str_num ap ar f2 raw (min ms 0.05) mc)"
    using h by (simp add: upload_dataset_def without_file_name_def split: sum.splits)
qed

subsection \<open>The order of the itemsets\<close>


subsection \<open>The order the specification asks for\<close>



subsection \<open>Examples\<close>


definition baskets_suggestions :: suggestions where
  "baskets_suggestions =
     \<lparr> very_low = 1 / 3, low = 2 / 3, conservative = 1 / 5, moderate = 1 / 3, strict = 2 / 3 \<rparr>"

definition baskets_rules :: "rule_tx list" where
  "baskets_rules =
     [\<lparr> antecedents = [Str ''x''], consequents = [Str ''y''], support = 1 / 3,
         confidence = 1 / 2, lift = 3 / 4, supporting_transactions = [0] \<rparr>,
      \<lparr> antecedents = [Str ''y''], consequents = [Str ''x''], support = 1 / 3,
         confidence = 1 / 2, lift = 3 / 4, supporting_transactions = [0] \<rparr>]"

definition baskets_itemsets :: itemsets where
  "baskets_itemsets = [(2 / 3, [Str ''x'']), (2 / 3, [Str ''y'']), (1 / 3, [Str ''x'', Str ''y''])]"

definition baskets_state :: "real \<Rightarrow> real \<Rightarrow> state" where
  "baskets_state ms mc =
     \<lparr> df_raw = baskets, df_encoded = baskets_encoded, frequent_itemsets = baskets_itemsets,
       rules = baskets_rules, cooccurrence = ([Str ''x'', Str ''y''], [[0, 1], [1, 0]]),
       meta = \<lparr> file_name = Some ''baskets.csv'', n_transactions = 3, n_items = 2,
                min_support = ms, min_confidence = mc, n_frequent_itemsets = 3, n_rules = 2,
                support_suggestions = baskets_suggestions \<rparr> \<rparr>"


lemma baskets_not_empty: "\<not> df_empty baskets"
  by (simp add: df_empty_def n_rows_def baskets_def)

lemma baskets_encoding: "detect_and_encode no_str baskets = Inr baskets_encoded"
  by code_simp

lemma baskets_very_low: "very_low (calculate_optimal_support baskets_encoded) = 1 / 3"
  by code_simp

lemma baskets_mined_strict: "apriori_spec baskets_encoded (9 / 10) = Inr []"
  by code_simp

lemma baskets_mined_very_low:
  "apriori_spec baskets_encoded (1 / 3) =
     Inr [(2 / 3, [Str ''x'']), (2 / 3, [Str ''y'']), (1 / 3, [Str ''x'', Str ''y''])]"
  by code_simp

lemma baskets_run_apriori:
  "run_apriori apriori_spec baskets_encoded (9 / 10) (calculate_optimal_support baskets_encoded) =
     Inr (1 / 3, [(2 / 3, [Str ''x'']), (2 / 3, [Str ''y'']), (1 / 3, [Str ''x'', Str ''y''])])"
  by code_simp

lemma baskets_no_strict_rule:
  "association_rules_spec
     (sort_values_support [(2 / 3, [Str ''x'']), (2 / 3, [Str ''y'']), (1 / 3, [Str ''x'', Str ''y''])])
     (9 / 10) = Inr []"
  by code_simp

lemma baskets_upload_strict:
  "upload_dataset no_str apriori_spec association_rules_spec (Some ''baskets.csv'') baskets (9 / 10) (9 / 10)
     = Inr (baskets_state (1 / 3) (1 / 10))"
  by code_simp

lemma baskets_upload:
  "upload_dataset no_str apriori_spec association_rules_spec (Some ''baskets.csv'') baskets (1 / 3) (1 / 2)
     = Inr (baskets_state (1 / 3) (1 / 2))"
  by code_simp

lemma baskets_upload_half:
  "itemsets_of (upload_dataset no_str apriori_spec association_rules_spec (Some ''baskets.csv'')
      baskets (1 / 2) (1 / 2)) = Some [(2 / 3, [Str ''x'']), (2 / 3, [Str ''y''])]"
  by code_simp

lemma baskets_upload_sample:
  "itemsets_of (upload_dataset no_str apriori_spec association_rules_spec
      (Some ''sample_transactions.csv'') baskets (1 / 2) (1 / 2)) =
     Some [(2 / 3, [Str ''x'']), (2 / 3, [Str ''y'']), (1 / 3, [Str ''x'', Str ''y''])]"
  by code_simp


lemma file_names:
  "\<not> is_sample_file (Some ''baskets.csv'')" "\<not> is_sample_file (Some ''march.csv'')"
  "is_sample_file (Some ''sample_transactions.csv'')"
  by (simp_all add: is_sample_file_def)


text \<open>A table of 101 baskets over two items that one basket holds.\<close>

definition sparse :: dataframe where
  "sparse =
     [(''a'', NumericCol (Some 1 # replicate 100 (Some 0))),
      (''b'', NumericCol (Some 1 # replicate 100 (Some 0)))]"

definition sparse_encoded :: onehot where
  "sparse_encoded = [(Str ''a'', 1 # replicate 100 0), (Str ''b'', 1 # replicate 100 0)]"

lemma sparse_not_empty: "\<not> df_empty sparse"
  by (simp add: df_empty_def n_rows_def sparse_def)

lemma sparse_encoding: "detect_and_encode no_str sparse = Inr sparse_encoded"
  by code_simp

lemma sparse_very_low: "very_low (calculate_optimal_support sparse_encoded) = 1 / 100"
  by code_simp

lemma sparse_mined: "apriori_spec sparse_encoded (1 / 2) = Inr []"
  by code_simp

lemma sparse_mined_very_low: "apriori_spec sparse_encoded (1 / 100) = Inr []"
  by code_simp

section \<open>The claims on the request\<close>

text \<open>
  Claim C1, as amended. When mining at the min_support in force (the requested one, or
  0.05 at most for a file whose name holds "sample_transactions") yields no frequent
  itemset, \<^verbatim>\<open>upload_dataset\<close> ends with a 400 exactly when that min_support is not
  above the very_low suggestion, or mining again at very_low yields none either or fails;
  in the first two cases the 400 is the error of the data being too sparse. Otherwise the
  request goes on with the itemsets mined at very_low: apart from the name of the file it
  answers as a request made at very_low answers, and a result records very_low as
  min_support and holds the supports of those itemsets. When the rule generator yields no
  rule for more than one itemset at a min_confidence above 0.1, it is run again at 0.1:
  the request answers as a request made at 0.1 answers, and a result records 0.1 as
  min_confidence and holds the rules generated at 0.1.
\<close>

theorem upload_retries_with_looser_thresholds:
  assumes "0 < ms" "ms \<le> 1" "0 < mc" "mc \<le> 1" "\<not> df_empty raw"
    and "detect_and_encode str_num raw = Inr enc"
    and "ms1 = (if is_sample_file filename then min ms 0.05 else ms)"
    and "vl = very_low (calculate_optimal_support enc)"
  shows "(ap enc ms1 = Inr [] \<longrightarrow>
            (\<exists>d. upload_dataset str_num ap ar filename raw ms mc = Inl (HTTPException 400 d)) =
            (ms1 \<le> vl \<or> ap enc vl = Inr [] \<or> (\<exists>e. ap enc vl = Inl e)))
         \<and> (ap enc ms1 = Inr [] \<and> (ms1 \<le> vl \<or> ap enc vl = Inr []) \<longrightarrow>
            upload_dataset str_num ap ar filename raw ms mc = Inl (HTTPException 400 too_sparse))
         \<and> (\<forall>fi. ap enc ms1 = Inr [] \<and> vl < ms1 \<and> ap enc vl = Inr fi \<and> fi \<noteq> [] \<longrightarrow>
               without_file_name (upload_dataset str_num ap ar filename raw ms mc) =
               without_file_name (upload_dataset str_num ap ar None raw vl mc))
         \<and> (\<forall>fi st. ap enc ms1 = Inr [] \<and> vl < ms1 \<and> ap enc vl = Inr fi \<and> fi \<noteq> []
               \<and> upload_dataset str_num ap ar filename raw ms mc = Inr st \<longrightarrow>
               min_support (meta st) = vl
               \<and> map fst (frequent_itemsets st) = map fst (sort_values_support fi))
         \<and> (\<forall>ms2 fi. run_apriori ap enc ms1 (calculate_optimal_support enc) = Inr (ms2, fi)
               \<and> 1 < length fi \<and> ar (sort_values_support fi) mc = Inr [] \<and> 0.1 < mc \<longrightarrow>
               upload_dataset str_num ap ar filename raw ms mc =
               upload_dataset str_num ap ar filename raw ms 0.1)
         \<and> (\<forall>ms2 fi st. run_apriori ap enc ms1 (calculate_optimal_support enc) = Inr (ms2, fi)
               \<and> 1 < length fi \<and> ar (sort_values_support fi) mc = Inr [] \<and> 0.1 < mc
               \<and> upload_dataset str_num ap ar filename raw ms mc = Inr st \<longrightarrow>
               min_confidence (meta st) = 0.1
               \<and> map confidence (rules st) =
                   (case ar (sort_values_support fi) 0.1 of Inl e \<Rightarrow> [] | Inr rs \<Rightarrow> map confidence rs))"
proof -
  note old = upload_retries [OF assms]
  show ?thesis
    by (intro conjI)
      (rule upload_reports_400 [OF assms], rule old [THEN conjunct1],
       rule upload_retry_at_very_low [OF assms], rule old [THEN conjunct2, THEN conjunct1],
       rule upload_retry_at_tenth [OF assms], rule old [THEN conjunct2, THEN conjunct2])
qed

theorem upload_retries_with_looser_thresholds_witness:
  "(0::real) < 9 / 10 \<and> (9 / 10 :: real) \<le> 1 \<and> \<not> df_empty baskets
   \<and> detect_and_encode no_str baskets = Inr baskets_encoded
   \<and> very_low (calculate_optimal_support baskets_encoded) = 1 / 3
   \<and> apriori_spec baskets_encoded (9 / 10) = Inr []
   \<and> apriori_spec baskets_encoded (1 / 3) = Inr baskets_itemsets
   \<and> upload_dataset no_str apriori_spec association_rules_spec (Some ''baskets.csv'') baskets
        (9 / 10) (9 / 10) = Inr (baskets_state (1 / 3) (1 / 10))
   \<and> min_support (meta (baskets_state (1 / 3) (1 / 10))) = 1 / 3
   \<and> min_confidence (meta (baskets_state (1 / 3) (1 / 10))) = 1 / 10
   \<and> without_file_name (upload_dataset no_str apriori_spec association_rules_spec
        (Some ''baskets.csv'') baskets (9 / 10) (9 / 10)) =
       without_file_name (upload_dataset no_str apriori_spec association_rules_spec
        None baskets (1 / 3) (9 / 10))
   \<and> upload_dataset no_str apriori_spec association_rules_spec (Some ''baskets.csv'') baskets
        (9 / 10) (9 / 10) =
       upload_dataset no_str apriori_spec association_rules_spec (Some ''baskets.csv'') baskets
        (9 / 10) (1 / 10)
   \<and> \<not> df_empty sparse \<and> detect_and_encode no_str sparse = Inr sparse_encoded
   \<and> very_low (calculate_optimal_support sparse_encoded) = 1 / 100
   \<and> apriori_spec sparse_encoded (1 / 2) = Inr []
   \<and> apriori_spec sparse_encoded (1 / 100) = Inr []
   \<and> upload_dataset no_str apriori_spec association_rules_spec (Some ''sparse.csv'') sparse
        (1 / 2) (1 / 2) = Inl (HTTPException 400 too_sparse)"
proof -
  have p1: "(0::real) < 9 / 10" and p2: "(9 / 10 :: real) \<le> 1" by simp_all
  have p7: "(9 / 10 :: real) = (if is_sample_file (Some ''baskets.csv'') then min (9 / 10) 0.05 else 9 / 10)"
    by (simp add: file_names)
  have p8: "(1 / 3 :: real) = very_low (calculate_optimal_support baskets_encoded)"
    by (simp add: baskets_very_low)
  note t = upload_retries_with_looser_thresholds
    [where ap = apriori_spec and ar = association_rules_spec,
     OF p1 p2 p1 p2 baskets_not_empty baskets_encoding p7 p8]
  have mined: "apriori_spec baskets_encoded (1 / 3) = Inr baskets_itemsets"
    by (simp add: baskets_mined_very_low baskets_itemsets_def)
  have ne: "baskets_itemsets \<noteq> []" by (simp add: baskets_itemsets_def)
  have lt: "(1 / 3 :: real) < 9 / 10" by simp
  note R = t [THEN conjunct2, THEN conjunct2, THEN conjunct1]
  have same: "without_file_name (upload_dataset no_str apriori_spec association_rules_spec
        (Some ''baskets.csv'') baskets (9 / 10) (9 / 10)) =
       without_file_name (upload_dataset no_str apriori_spec association_rules_spec
        None baskets (1 / 3) (9 / 10))"
    using R baskets_mined_strict mined ne lt by blast
  note B = t [THEN conjunct2, THEN conjunct2, THEN conjunct2, THEN conjunct1]
  have ms: "min_support (meta (baskets_state (1 / 3) (1 / 10))) = 1 / 3"
    using B baskets_mined_strict mined ne lt baskets_upload_strict by blast
  have ra: "run_apriori apriori_spec baskets_encoded (9 / 10) (calculate_optimal_support baskets_encoded)
         = Inr (1 / 3, baskets_itemsets)"
    by (simp add: baskets_run_apriori baskets_itemsets_def)
  have nr: "association_rules_spec (sort_values_support baskets_itemsets) (9 / 10) = Inr []"
    by (simp add: baskets_no_strict_rule baskets_itemsets_def)
  have len: "1 < length baskets_itemsets" by (simp add: baskets_itemsets_def)
  have lt2: "(0.1 :: real) < 9 / 10" by simp
  note R2 = t [THEN conjunct2, THEN conjunct2, THEN conjunct2, THEN conjunct2, THEN conjunct1]
  have "upload_dataset no_str apriori_spec association_rules_spec (Some ''baskets.csv'') baskets
        (9 / 10) (9 / 10) =
       upload_dataset no_str apriori_spec association_rules_spec (Some ''baskets.csv'') baskets
        (9 / 10) 0.1"
    using R2 ra nr len lt2 by blast
  then have tenth: "upload_dataset no_str apriori_spec association_rules_spec (Some ''baskets.csv'')
        baskets (9 / 10) (9 / 10) =
       upload_dataset no_str apriori_spec association_rules_spec (Some ''baskets.csv'') baskets
        (9 / 10) (1 / 10)"
    by simp
  note C = t [THEN conjunct2, THEN conjunct2, THEN conjunct2, THEN conjunct2, THEN conjunct2]
  have "min_confidence (meta (baskets_state (1 / 3) (1 / 10))) = 0.1"
    using C ra nr len lt2 baskets_upload_strict by blast
  then have mc: "min_confidence (meta (baskets_state (1 / 3) (1 / 10))) = 1 / 10" by simp
  have q1: "(0::real) < 1 / 2" and q2: "(1 / 2 :: real) \<le> 1" by simp_all
  have q7: "(1 / 2 :: real) = (if is_sample_file (Some ''sparse.csv'') then min (1 / 2) 0.05 else 1 / 2)"
    by (simp add: is_sample_file_def)
  have q8: "(1 / 100 :: real) = very_low (calculate_optimal_support sparse_encoded)"
    by (simp add: sparse_very_low)
  note u = upload_retries_with_looser_thresholds
    [where ap = apriori_spec and ar = association_rules_spec,
     OF q1 q2 q1 q2 sparse_not_empty sparse_encoding q7 q8]
  note A = u [THEN conjunct2, THEN conjunct1]
  have err: "upload_dataset no_str apriori_spec association_rules_spec (Some ''sparse.csv'') sparse
        (1 / 2) (1 / 2) = Inl (HTTPException 400 too_sparse)"
    using A sparse_mined sparse_mined_very_low by blast
  from p1 p2 baskets_not_empty baskets_encoding baskets_very_low baskets_mined_strict mined
    baskets_upload_strict ms mc same tenth sparse_not_empty sparse_encoding sparse_very_low
    sparse_mined sparse_mined_very_low err
  show ?thesis by (intro conjI)
qed

text \<open>
  The claim as it is worded fails on three baskets over x and y with both thresholds at
  0.9: no itemset has support 0.9, yet the request succeeds, with min_support 1/3 and
  min_confidence 0.1 in its metadata.
\<close>

theorem no_retry_counterexample:
  "apriori_spec baskets_encoded (9 / 10) = Inr []
   \<and> detect_and_encode no_str baskets = Inr baskets_encoded
   \<and> upload_dataset no_str apriori_spec association_rules_spec (Some ''baskets.csv'') baskets
        (9 / 10) (9 / 10) = Inr (baskets_state (1 / 3) (1 / 10))
   \<and> upload_dataset no_str apriori_spec association_rules_spec (Some ''baskets.csv'') baskets
        (9 / 10) (9 / 10) \<noteq> Inl (HTTPException 400 too_sparse)
   \<and> thresholds_of (upload_dataset no_str apriori_spec association_rules_spec
        (Some ''baskets.csv'') baskets (9 / 10) (9 / 10)) = Some (1 / 3, 1 / 10)"
  by (simp add: baskets_mined_strict baskets_encoding baskets_upload_strict thresholds_of_def
      baskets_state_def)

text \<open>
  Claim C2, as amended. With a miner and a rule generator that keep to the threshold
  they are given, every itemset a request returns has support at least the min_support
  recorded in its metadata and every rule has confidence at least the recorded
  min_confidence; the recorded thresholds are at most the requested ones.
\<close>

theorem upload_threshold_compliance:
  assumes "threshold_compliant_miner ap" and "threshold_compliant_rules ar"
    and "upload_dataset str_num ap ar filename raw ms mc = Inr st"
  shows "(\<forall>x \<in> set (frequent_itemsets st). min_support (meta st) \<le> fst x)
         \<and> (\<forall>r \<in> set (rules st). min_confidence (meta st) \<le> confidence r)
         \<and> min_support (meta st) \<le> ms \<and> min_confidence (meta st) \<le> mc"
  using assms by (rule upload_compliance)

theorem upload_threshold_compliance_witness:
  "threshold_compliant_miner apriori_spec \<and> threshold_compliant_rules association_rules_spec
   \<and> upload_dataset no_str apriori_spec association_rules_spec (Some ''baskets.csv'') baskets
        (1 / 3) (1 / 2) = Inr (baskets_state (1 / 3) (1 / 2))
   \<and> min_support (meta (baskets_state (1 / 3) (1 / 2))) \<le> 1 / 3
   \<and> min_confidence (meta (baskets_state (1 / 3) (1 / 2))) \<le> 1 / 2
   \<and> map fst (frequent_itemsets (baskets_state (1 / 3) (1 / 2))) = [2 / 3, 2 / 3, 1 / 3]
   \<and> map confidence (rules (baskets_state (1 / 3) (1 / 2))) = [1 / 2, 1 / 2]"
proof -
  note t = upload_threshold_compliance
    [OF apriori_spec_compliant association_rules_spec_compliant baskets_upload]
  have a: "min_support (meta (baskets_state (1 / 3) (1 / 2))) \<le> 1 / 3"
    and b: "min_confidence (meta (baskets_state (1 / 3) (1 / 2))) \<le> 1 / 2"
    using t by blast+
  have c: "map fst (frequent_itemsets (baskets_state (1 / 3) (1 / 2))) = [2 / 3, 2 / 3, 1 / 3]"
    by (simp add: baskets_state_def baskets_itemsets_def)
  have d: "map confidence (rules (baskets_state (1 / 3) (1 / 2))) = [1 / 2, 1 / 2]"
    by (simp add: baskets_state_def baskets_rules_def)
  from apriori_spec_compliant association_rules_spec_compliant baskets_upload a b c d
  show ?thesis by (intro conjI)
qed

text \<open>
  Against the requested thresholds the claim fails: requested at 0.9 and 0.9, the
  request returns itemsets of support 2/3 and 1/3 and rules of confidence 1/2.
\<close>

theorem requested_threshold_counterexample:
  "upload_dataset no_str apriori_spec association_rules_spec (Some ''baskets.csv'') baskets
        (9 / 10) (9 / 10) = Inr (baskets_state (1 / 3) (1 / 10))
   \<and> map fst (frequent_itemsets (baskets_state (1 / 3) (1 / 10))) = [2 / 3, 2 / 3, 1 / 3]
   \<and> (2 / 3 :: real) < 9 / 10
   \<and> map confidence (rules (baskets_state (1 / 3) (1 / 10))) = [1 / 2, 1 / 2]
   \<and> (1 / 2 :: real) < 9 / 10"
  by (simp add: baskets_upload_strict baskets_state_def baskets_itemsets_def baskets_rules_def)

text \<open>
  Claim C3, as amended. Apart from the recorded file name, the result of a request
  depends on the name of the file only through whether it holds "sample_transactions":
  two names that agree on this give the same result, and a name that holds it gives the
  result of any other name at the smaller of the requested min_support and 0.05.
\<close>

theorem result_depends_on_sample_name_only:
  "(is_sample_file f1 = is_sample_file f2 \<longrightarrow>
      without_file_name (upload_dataset str_num ap ar f1 raw ms mc)
        = without_file_name (upload_dataset str_num ap ar f2 raw ms mc))
   \<and> (is_sample_file f1 \<and> \<not> is_sample_file f2 \<and> 0 < ms \<and> ms \<le> 1 \<longrightarrow>
      without_file_name (upload_dataset str_num ap ar f1 raw ms mc)
        = without_file_name (upload_dataset str_num ap ar f2 raw (min ms 0.05) mc))"
  by (rule upload_file_name)

theorem result_depends_on_sample_name_only_witness:
  "is_sample_file (Some ''baskets.csv'') = is_sample_file (Some ''march.csv'')
   \<and> without_file_name (upload_dataset no_str apriori_spec association_rules_spec
        (Some ''baskets.csv'') baskets (1 / 2) (1 / 2))
     = without_file_name (upload_dataset no_str apriori_spec association_rules_spec
        (Some ''march.csv'') baskets (1 / 2) (1 / 2))
   \<and> is_sample_file (Some ''sample_transactions.csv'')
   \<and> without_file_name (upload_dataset no_str apriori_spec association_rules_spec
        (Some ''sample_transactions.csv'') baskets (1 / 2) (1 / 2))
     = without_file_name (upload_dataset no_str apriori_spec association_rules_spec
        (Some ''baskets.csv'') baskets (min (1 / 2) 0.05) (1 / 2))"
proof -
  have same: "is_sample_file (Some ''baskets.csv'') = is_sample_file (Some ''march.csv'')"
    by (simp add: file_names)
  have range: "(0::real) < 1 / 2 \<and> (1 / 2 :: real) \<le> 1" by simp
  have a: "without_file_name (upload_dataset no_str apriori_spec association_rules_spec
        (Some ''baskets.csv'') baskets (1 / 2) (1 / 2))
     = without_file_name (upload_dataset no_str apriori_spec association_rules_spec
        (Some ''march.csv'') baskets (1 / 2) (1 / 2))"
    using result_depends_on_sample_name_only
      [of "Some ''baskets.csv''" "Some ''march.csv''" no_str apriori_spec association_rules_spec
          baskets "1 / 2" "1 / 2"] same
    by blast
  have b: "without_file_name (upload_dataset no_str apriori_spec association_rules_spec
        (Some ''sample_transactions.csv'') baskets (1 / 2) (1 / 2))
     = without_file_name (upload_dataset no_str apriori_spec association_rules_spec
        (Some ''baskets.csv'') baskets (min (1 / 2) 0.05) (1 / 2))"
    using result_depends_on_sample_name_only
      [of "Some ''sample_transactions.csv''" "Some ''baskets.csv''" no_str apriori_spec
          association_rules_spec baskets "1 / 2" "1 / 2"] file_names range
    by blast
  from same a file_names(3) b show ?thesis by (intro conjI)
qed

text \<open>
  The same table and thresholds under the names "baskets.csv" and
  "sample_transactions.csv" give different frequent itemsets.
\<close>

theorem file_name_counterexample:
  "itemsets_of (upload_dataset no_str apriori_spec association_rules_spec (Some ''baskets.csv'')
      baskets (1 / 2) (1 / 2)) = Some [(2 / 3, [Str ''x'']), (2 / 3, [Str ''y''])]
   \<and> itemsets_of (upload_dataset no_str apriori_spec association_rules_spec
      (Some ''sample_transactions.csv'') baskets (1 / 2) (1 / 2)) =
     Some [(2 / 3, [Str ''x'']), (2 / 3, [Str ''y'']), (1 / 3, [Str ''x'', Str ''y''])]
   \<and> itemsets_of (upload_dataset no_str apriori_spec association_rules_spec (Some ''baskets.csv'')
      baskets (1 / 2) (1 / 2))
     \<noteq> itemsets_of (upload_dataset no_str apriori_spec association_rules_spec
      (Some ''sample_transactions.csv'') baskets (1 / 2) (1 / 2))"
  by (simp add: baskets_upload_half baskets_upload_sample)




end
